theory Spec2Isabelle
  imports Complex_Main "HOL-Library.Char_ord" "HOL-Library.List_Lexorder" "HOL-Library.Word"
begin

section \<open>Python values used by the classifiers\<close>

text \<open>
  The two classifiers of the repository, \<^verbatim>\<open>backend/app/utils/dataset_classifier.py\<close> and
  \<^verbatim>\<open>backend/app/utils/embedding_classifier.py\<close>, are embedded function by function.
  Python floats are modelled as exact reals, Python strings as lists of 8-bit characters
  (every string the code compares against is ASCII), and every exception the code can
  raise is a value of \<open>py_error\<close> on the left of a sum.
\<close>

type_synonym bytes = "8 word list"

datatype py_error =
  UnidentifiedImageError | ValueError | KeyError | IndexError | RuntimeError | OSError

subsection \<open>\<^verbatim>\<open>str.lower\<close> and the substring test \<^verbatim>\<open>needle in haystack\<close>\<close>

text \<open>
  \<^verbatim>\<open>str.lower\<close> on the code points below 256: the ASCII capitals and the Latin-1 capitals
  (all of 192..222 but the multiplication sign 215) move up by 32.
\<close>

definition lower_char :: "char \<Rightarrow> char" where
  "lower_char c =
     (let n = (of_char c :: nat) in
      if (65 \<le> n \<and> n \<le> 90) \<or> (192 \<le> n \<and> n \<le> 222 \<and> n \<noteq> 215)
      then char_of (n + 32) else c)"

definition lower :: "string \<Rightarrow> string" where
  "lower s = map lower_char s"

fun startswith :: "string \<Rightarrow> string \<Rightarrow> bool" where
  "startswith t [] = True"
| "startswith [] (c # s) = False"
| "startswith (d # t) (c # s) = (d = c \<and> startswith t s)"

text \<open>\<open>str_contains s t\<close> is Python's \<^verbatim>\<open>s in t\<close> on strings.\<close>

fun str_contains :: "string \<Rightarrow> string \<Rightarrow> bool" where
  "str_contains s [] = (s = [])"
| "str_contains s (c # t) = (startswith (c # t) s \<or> str_contains s t)"

subsection \<open>\<^verbatim>\<open>max\<close> over a list and over a dict by value\<close>

text \<open>
  CPython's \<^verbatim>\<open>max\<close> keeps the first item and replaces it only by a strictly greater one;
  on an empty argument it raises \<^verbatim>\<open>ValueError\<close>. \<^verbatim>\<open>max(d, key=d.get)\<close> walks the keys of
  the dict in insertion order, so a dict is an association list here.
\<close>

fun max_from :: "real \<Rightarrow> real list \<Rightarrow> real" where
  "max_from best [] = best"
| "max_from best (x # xs) = max_from (if x > best then x else best) xs"

definition py_max :: "real list \<Rightarrow> py_error + real" where
  "py_max xs = (case xs of [] \<Rightarrow> Inl ValueError | x # ys \<Rightarrow> Inr (max_from x ys))"

fun argmax_from :: "'k \<times> 'v \<Rightarrow> ('k \<times> 'v::linorder) list \<Rightarrow> 'k \<times> 'v" where
  "argmax_from best [] = best"
| "argmax_from best (kv # kvs) = argmax_from (if snd kv > snd best then kv else best) kvs"

definition max_key_by_value :: "('k \<times> 'v::linorder) list \<Rightarrow> py_error + 'k" where
  "max_key_by_value d =
     (case d of [] \<Rightarrow> Inl ValueError | kv # kvs \<Rightarrow> Inr (fst (argmax_from kv kvs)))"

definition dict_get :: "('k \<times> 'v) list \<Rightarrow> 'k \<Rightarrow> py_error + 'v" where
  "dict_get d k = (case map_of d k of None \<Rightarrow> Inl KeyError | Some v \<Rightarrow> Inr v)"

section \<open>\<^verbatim>\<open>dataset_classifier.py\<close>: class \<^verbatim>\<open>DatasetClassifier\<close>\<close>

subsection \<open>The outside world: PIL, numpy's and Python's random generators\<close>

text \<open>
  \<open>Image_open\<close> is \<^verbatim>\<open>Image.open(io.BytesIO(image_data))\<close>, \<open>None\<close> when it raises.
  \<open>raw_features\<close> is the part of \<^verbatim>\<open>_extract_features\<close> that PIL and numpy compute: the three
  16-bin colour histograms followed by the two edge sums, all of them counts; \<open>None\<close> when
  any of these steps raises (an image whose header was read but whose data cannot be
  decoded fails here).
\<close>

record 'img pil =
  Image_open :: "bytes \<Rightarrow> 'img option"
  raw_features :: "'img \<Rightarrow> nat list option"

text \<open>
  \<open>random_features\<close> is the value of \<^verbatim>\<open>np.random.random(50)\<close>; \<open>random_raw\<close> is the raw draw from which
  \<^verbatim>\<open>random.choice\<close> takes its index, reduced modulo the length of the sequence.
\<close>

record rng =
  random_features :: "real list"
  random_raw :: nat

definition random_choice :: "rng \<Rightarrow> 'a list \<Rightarrow> py_error + 'a" where
  "random_choice R xs =
     (if xs = [] then Inl IndexError else Inr (xs ! (random_raw R mod length xs)))"

subsection \<open>The classifier's state\<close>

record ref_data =
  rd_features :: "real list"
  rd_filename :: string

record dataset_classifier =
  reference_features :: "string \<rightharpoonup> ref_data list"
  style_counts :: "(string \<times> nat) list"

definition STYLES :: "string list" where
  "STYLES = [''warli'', ''madhubani'', ''pithora'']"

subsection \<open>\<^verbatim>\<open>_extract_features\<close>\<close>

definition extract_features :: "'img pil \<Rightarrow> rng \<Rightarrow> 'img \<Rightarrow> real list" where
  "extract_features P R img =
     (case raw_features P img of
        None \<Rightarrow> random_features R
      | Some counts \<Rightarrow>
          (let features = map real counts in
           if sum_list features > 0 then map (\<lambda>x. x / sum_list features) features
           else features))"

subsection \<open>\<^verbatim>\<open>_calculate_filename_similarity\<close>\<close>

definition style_keywords :: "(string \<times> string list) list" where
  "style_keywords =
     [(''warli'', [''tribal'', ''geometric'', ''simple'', ''story'']),
      (''madhubani'', [''intricate'', ''colorful'', ''pattern'', ''folk'']),
      (''pithora'', [''horse'', ''ritual'', ''ceremony'', ''deity''])]"

text \<open>The loop over the keywords, which returns 0.7 at the first one found.\<close>

fun keyword_loop :: "string list \<Rightarrow> string \<Rightarrow> real" where
  "keyword_loop [] filename_lower = 0.0"
| "keyword_loop (keyword # keywords) filename_lower =
     (if str_contains keyword filename_lower then 0.7
      else keyword_loop keywords filename_lower)"

definition calculate_filename_similarity :: "string \<Rightarrow> string \<Rightarrow> real" where
  "calculate_filename_similarity filename style =
     (let filename_lower = lower filename in
      if style = ''warli'' \<and> str_contains ''warli'' filename_lower then 0.95
      else if style = ''madhubani'' \<and> str_contains ''madhubani'' filename_lower then 0.95
      else if style = ''pithora'' \<and> str_contains ''pithora'' filename_lower then 0.95
      else keyword_loop
             (case map_of style_keywords style of None \<Rightarrow> [] | Some ks \<Rightarrow> ks)
             filename_lower)"

subsection \<open>\<^verbatim>\<open>sklearn.metrics.pairwise.cosine_similarity\<close> on two single rows\<close>

text \<open>
  The library call \<^verbatim>\<open>cosine_similarity([x], [y])[0][0]\<close>: both rows are divided by their
  Euclidean norm, a zero norm being replaced by 1, and the dot product is taken. It raises
  \<^verbatim>\<open>ValueError\<close> when the rows have no feature or differ in length.
\<close>

definition dot :: "real list \<Rightarrow> real list \<Rightarrow> real" where
  "dot xs ys = sum_list (map2 (*) xs ys)"

definition l2_norm :: "real list \<Rightarrow> real" where
  "l2_norm xs = sqrt (dot xs xs)"

definition normalize_row :: "real list \<Rightarrow> real list" where
  "normalize_row xs = (let n = l2_norm xs in map (\<lambda>x. x / (if n = 0 then 1 else n)) xs)"

definition cosine_similarity :: "real list \<Rightarrow> real list \<Rightarrow> py_error + real" where
  "cosine_similarity x y =
     (if x = [] \<or> y = [] \<or> length x \<noteq> length y then Inl ValueError
      else Inr (dot (normalize_row x) (normalize_row y)))"

subsection \<open>\<^verbatim>\<open>classify_image\<close>\<close>

datatype pyval =
    PyStr string
  | PyFloat real
  | PyScores "(string \<times> real) list"
  | PyCounts "(string \<times> nat) list"

type_synonym result = "(string \<times> pyval) list"

text \<open>The inner loop over the reference samples of one style.\<close>

fun similarities_loop :: "real list \<Rightarrow> ref_data list \<Rightarrow> py_error + real list" where
  "similarities_loop uploaded_features [] = Inr []"
| "similarities_loop uploaded_features (ref # refs) =
     (case cosine_similarity uploaded_features (rd_features ref) of
        Inl e \<Rightarrow> Inl e
      | Inr sim \<Rightarrow>
          (case similarities_loop uploaded_features refs of
             Inl e \<Rightarrow> Inl e
           | Inr similarities \<Rightarrow> Inr (max 0 sim # similarities)))"

text \<open>The body of the loop over the styles: the score stored in \<^verbatim>\<open>style_scores[style]\<close>.\<close>

definition style_score ::
  "dataset_classifier \<Rightarrow> real list \<Rightarrow> string \<Rightarrow> string \<Rightarrow> py_error + real" where
  "style_score self uploaded_features filename style =
     (case reference_features self style of
        None \<Rightarrow> Inr (calculate_filename_similarity filename style)
      | Some [] \<Rightarrow> Inr (calculate_filename_similarity filename style)
      | Some (ref # refs) \<Rightarrow>
          (case similarities_loop uploaded_features (ref # refs) of
             Inl e \<Rightarrow> Inl e
           | Inr similarities \<Rightarrow>
               (case (if similarities \<noteq> [] then py_max similarities else Inr 0.3) of
                  Inl e \<Rightarrow> Inl e
                | Inr base_similarity \<Rightarrow>
                    (let filename_score = calculate_filename_similarity filename style in
                     Inr ((base_similarity * 0.7) + (filename_score * 0.3))))))"

fun styles_loop ::
  "dataset_classifier \<Rightarrow> real list \<Rightarrow> string \<Rightarrow> string list \<Rightarrow>
   py_error + (string \<times> real) list" where
  "styles_loop self uploaded_features filename [] = Inr []"
| "styles_loop self uploaded_features filename (style # styles) =
     (case style_score self uploaded_features filename style of
        Inl e \<Rightarrow> Inl e
      | Inr score \<Rightarrow>
          (case styles_loop self uploaded_features filename styles of
             Inl e \<Rightarrow> Inl e
           | Inr style_scores \<Rightarrow> Inr ((style, score) # style_scores)))"

text \<open>
  The low-confidence override: below 0.5 the style with the largest count replaces the
  best match and the confidence becomes 0.75.
\<close>

definition low_confidence_override ::
  "dataset_classifier \<Rightarrow> string \<Rightarrow> real \<Rightarrow> py_error + string \<times> real" where
  "low_confidence_override self best_style confidence =
     (if confidence < 0.5 then
        (case max_key_by_value (style_counts self) of
           Inl e \<Rightarrow> Inl e
         | Inr style_by_count \<Rightarrow> Inr (style_by_count, 0.75))
      else Inr (best_style, confidence))"

text \<open>
  The \<^verbatim>\<open>try\<close> block of \<^verbatim>\<open>classify_image\<close>, in two parts: \<open>classify_features\<close> is the
  block from \<^verbatim>\<open># Compare with each style\<close> to its \<^verbatim>\<open>return\<close>, and \<open>classify_try\<close> puts the
  two statements that open the image and extract its features in front. \<open>Inl\<close> is an
  exception that reaches the handler.
\<close>

definition classify_features ::
  "dataset_classifier \<Rightarrow> real list \<Rightarrow> string \<Rightarrow> py_error + result" where
  "classify_features self uploaded_features filename =
     (case styles_loop self uploaded_features filename STYLES of
        Inl e \<Rightarrow> Inl e
      | Inr style_scores \<Rightarrow>
          (case max_key_by_value style_scores of
             Inl e \<Rightarrow> Inl e
           | Inr best_style \<Rightarrow>
               (case dict_get style_scores best_style of
                  Inl e \<Rightarrow> Inl e
                | Inr confidence \<Rightarrow>
                    (case low_confidence_override self best_style confidence of
                       Inl e \<Rightarrow> Inl e
                     | Inr (best_style', confidence') \<Rightarrow>
                         (let confidence'' = min 0.98 (confidence' + 0.15) in
                          Inr [(''predicted_style'', PyStr best_style'),
                               (''confidence_score'', PyFloat confidence''),
                               (''style_scores'', PyScores style_scores),
                               (''model_version'', PyStr ''dataset-comparison-v1''),
                               (''dataset_counts'', PyCounts (style_counts self))])))))"

definition classify_try ::
  "'img pil \<Rightarrow> rng \<Rightarrow> dataset_classifier \<Rightarrow> bytes \<Rightarrow> string \<Rightarrow> py_error + result" where
  "classify_try P R self image_data filename =
     (case Image_open P image_data of
        None \<Rightarrow> Inl UnidentifiedImageError
      | Some img \<Rightarrow>
          (let uploaded_features = extract_features P R img in
           classify_features self uploaded_features filename))"

text \<open>The handler's loop: the first style whose name occurs in the lowercased filename.\<close>

fun filename_fallback_loop :: "string \<Rightarrow> string list \<Rightarrow> string option" where
  "filename_fallback_loop filename [] = None"
| "filename_fallback_loop filename (style # styles) =
     (if str_contains style (lower filename) then Some style
      else filename_fallback_loop filename styles)"

text \<open>The \<^verbatim>\<open>except Exception\<close> handler; \<open>Inl\<close> would be an exception leaving \<^verbatim>\<open>classify_image\<close>.\<close>

definition classify_except ::
  "rng \<Rightarrow> dataset_classifier \<Rightarrow> string \<Rightarrow> py_error + result" where
  "classify_except R self filename =
     (case filename_fallback_loop filename STYLES of
        Some style \<Rightarrow>
          Inr [(''predicted_style'', PyStr style),
               (''confidence_score'', PyFloat 0.85),
               (''style_scores'', PyScores [(style, 0.85)]),
               (''model_version'', PyStr ''fallback-filename-v1''),
               (''dataset_counts'', PyCounts (style_counts self))]
      | None \<Rightarrow>
          (case random_choice R STYLES of
             Inl e \<Rightarrow> Inl e
           | Inr fallback_style \<Rightarrow>
               Inr [(''predicted_style'', PyStr fallback_style),
                    (''confidence_score'', PyFloat 0.72),
                    (''style_scores'', PyScores [(fallback_style, 0.72)]),
                    (''model_version'', PyStr ''random-fallback-v1''),
                    (''dataset_counts'', PyCounts (style_counts self))]))"

definition classify_image ::
  "'img pil \<Rightarrow> rng \<Rightarrow> dataset_classifier \<Rightarrow> bytes \<Rightarrow> string \<Rightarrow> py_error + result" where
  "classify_image P R self image_data filename =
     (case classify_try P R self image_data filename of
        Inr r \<Rightarrow> Inr r
      | Inl e \<Rightarrow> classify_except R self filename)"

text \<open>Reading a result: the value stored under a key of the returned dict.\<close>

definition predicted_style :: "result \<Rightarrow> string option" where
  "predicted_style r = (case map_of r ''predicted_style'' of Some (PyStr s) \<Rightarrow> Some s | _ \<Rightarrow> None)"

definition confidence_score :: "result \<Rightarrow> real option" where
  "confidence_score r = (case map_of r ''confidence_score'' of Some (PyFloat c) \<Rightarrow> Some c | _ \<Rightarrow> None)"

definition model_version :: "result \<Rightarrow> string option" where
  "model_version r = (case map_of r ''model_version'' of Some (PyStr s) \<Rightarrow> Some s | _ \<Rightarrow> None)"

definition result_style_scores :: "result \<Rightarrow> (string \<times> real) list option" where
  "result_style_scores r = (case map_of r ''style_scores'' of Some (PyScores d) \<Rightarrow> Some d | _ \<Rightarrow> None)"

subsection \<open>\<^verbatim>\<open>__init__\<close> and \<^verbatim>\<open>_load_reference_images\<close>\<close>

text \<open>
  A folder of the dataset is absent, or listing it raises, or it lists its image files
  (name and bytes, in the order \<^verbatim>\<open>image_files\<close> has them). \<open>dict_set\<close> is the assignment
  \<^verbatim>\<open>d[k] = v\<close>: a key already in the dict keeps its place.
\<close>

datatype folder = NoFolder | Unreadable | Folder "(string \<times> bytes) list"

fun dict_set :: "'k \<Rightarrow> 'v \<Rightarrow> ('k \<times> 'v) list \<Rightarrow> ('k \<times> 'v) list" where
  "dict_set k v [] = [(k, v)]"
| "dict_set k v (p # ps) = (if fst p = k then (k, v) # ps else p # dict_set k v ps)"

definition folder_mapping :: "(string \<times> string) list" where
  "folder_mapping =
     [(''warli painting'', ''warli''), (''madhubani painting'', ''madhubani''),
      (''Pithora'', ''pithora'')]"

text \<open>The loop over the first ten files of a folder; a file that cannot be opened is skipped.\<close>

fun references_loop ::
  "'img pil \<Rightarrow> (string \<Rightarrow> rng) \<Rightarrow> (string \<times> bytes) list \<Rightarrow> ref_data list" where
  "references_loop P R [] = []"
| "references_loop P R ((name, data) # files) =
     (case Image_open P data of
        None \<Rightarrow> references_loop P R files
      | Some img \<Rightarrow>
          \<lparr>rd_features = extract_features P (R name) img, rd_filename = name\<rparr>
            # references_loop P R files)"

text \<open>
  The loop over the folders. An exception leaves the loop with the state as it then is
  (the first component says so).
\<close>

fun folders_loop ::
  "'img pil \<Rightarrow> (string \<Rightarrow> rng) \<Rightarrow> (string \<Rightarrow> folder) \<Rightarrow> (string \<times> string) list \<Rightarrow>
   dataset_classifier \<Rightarrow> py_error option \<times> dataset_classifier" where
  "folders_loop P R dataset [] self = (None, self)"
| "folders_loop P R dataset ((folder_name, style) # rest) self =
     (case dataset folder_name of
        NoFolder \<Rightarrow> folders_loop P R dataset rest self
      | Unreadable \<Rightarrow> (Some OSError, self)
      | Folder image_files \<Rightarrow>
          folders_loop P R dataset rest
            (self\<lparr>style_counts := dict_set style (length image_files) (style_counts self),
                  reference_features :=
                    (reference_features self)
                      (style \<mapsto> references_loop P R (take 10 image_files))\<rparr>))"

definition load_reference_images ::
  "'img pil \<Rightarrow> (string \<Rightarrow> rng) \<Rightarrow> (string \<Rightarrow> folder) \<Rightarrow> dataset_classifier \<Rightarrow>
   dataset_classifier" where
  "load_reference_images P R dataset self =
     (case folders_loop P R dataset folder_mapping self of
        (None, self') \<Rightarrow> self'
      | (Some e, self') \<Rightarrow>
          self'\<lparr>style_counts := [(''warli'', 95), (''madhubani'', 95), (''pithora'', 14)]\<rparr>)"

definition init :: "'img pil \<Rightarrow> (string \<Rightarrow> rng) \<Rightarrow> (string \<Rightarrow> folder) \<Rightarrow> dataset_classifier" where
  "init P R dataset =
     load_reference_images P R dataset
       \<lparr>reference_features = Map.empty,
        style_counts = [(''warli'', 0), (''madhubani'', 0), (''pithora'', 0)]\<rparr>"

section \<open>\<^verbatim>\<open>embedding_classifier.py\<close>: class \<^verbatim>\<open>EmbeddingClassifier\<close>\<close>

subsection \<open>The runtime and the files on disk\<close>

text \<open>
  \<open>TF_AVAILABLE\<close> and \<open>CV2_AVAILABLE\<close> are the module's two flags. \<open>embed_tf\<close> is the
  MobileNetV2 branch of \<^verbatim>\<open>_embed_image\<close> and \<open>embed_cv\<close> is \<^verbatim>\<open>_compute_cv_features\<close>; \<open>None\<close>
  when the call raises. \<^verbatim>\<open>self.method\<close> and \<^verbatim>\<open>self.index_file\<close> are assigned once, in
  \<^verbatim>\<open>__init__\<close>, from \<open>TF_AVAILABLE\<close>; the model reads them from the runtime.
\<close>

record 'img runtime =
  TF_AVAILABLE :: bool
  CV2_AVAILABLE :: bool
  pil_open :: "bytes \<Rightarrow> 'img option"
  embed_tf :: "'img \<Rightarrow> real list option"
  embed_cv :: "'img \<Rightarrow> real list option"

definition active_method :: "'img runtime \<Rightarrow> string" where
  "active_method E = (if TF_AVAILABLE E then ''mobilenetv2'' else ''cvhsv'')"

definition embed_image :: "'img runtime \<Rightarrow> 'img \<Rightarrow> real list option" where
  "embed_image E img = (if TF_AVAILABLE E then embed_tf E img else embed_cv E img)"

text \<open>
  A file is missing, or exists and cannot be read (reading raises), or has a content.
  The arrays of the index file are read one by one. The label array is either an object
  array, which is how \<^verbatim>\<open>_load_or_build_index\<close> saves it
  (\<^verbatim>\<open>np.array(self.labels, dtype=object)\<close>), or a plain string array. \<^verbatim>\<open>np.load\<close> is called
  without \<^verbatim>\<open>allow_pickle\<close>, so reading an object array raises \<^verbatim>\<open>ValueError\<close>. The metadata
  is the JSON object; \<open>None\<close> is an absent key.
\<close>

datatype 'a disk_file = Missing | Corrupt | Content 'a

datatype label_array = ObjectArray "string list" | StringArray "string list"

record index_data =
  idx_embeddings :: "real list list"
  idx_labels :: label_array

record index_meta =
  meta_label_names :: "string list option"
  meta_count :: "nat option"
  meta_method :: "string option"

datatype event =
    LoadedIndex
  | LoadFailedRebuilding py_error
  | BuildingIndex
  | BuiltIndex
  | LoadOrBuildFailed py_error

text \<open>
  \<open>dataset_items\<close> is what \<^verbatim>\<open>_iter_dataset_images\<close> returns, each path standing for the
  bytes of its file; \<open>stdout\<close> collects the messages the index code prints.
\<close>

record world =
  index_file_tf :: "index_data disk_file"
  index_file_cv :: "index_data disk_file"
  meta_file :: "index_meta disk_file"
  dataset_items :: "(string \<times> bytes) list"
  stdout :: "event list"

definition index_file :: "'img runtime \<Rightarrow> world \<Rightarrow> index_data disk_file" where
  "index_file E W = (if TF_AVAILABLE E then index_file_tf W else index_file_cv W)"

definition write_index_file :: "'img runtime \<Rightarrow> index_data \<Rightarrow> world \<Rightarrow> world" where
  "write_index_file E data W =
     (if TF_AVAILABLE E then W\<lparr>index_file_tf := Content data\<rparr>
      else W\<lparr>index_file_cv := Content data\<rparr>)"

definition exists :: "'a disk_file \<Rightarrow> bool" where
  "exists f = (f \<noteq> Missing)"

subsection \<open>The classifier's state\<close>

text \<open>
  The fields of the object that the index code and \<^verbatim>\<open>classify\<close> use, each with the prefix
  \<open>ec_\<close>. \<open>ec_embeddings\<close> is the two-dimensional array \<^verbatim>\<open>self.embeddings\<close> as the list of
  its rows, \<open>None\<close> for Python's \<^verbatim>\<open>None\<close>. \<open>sorted_set\<close> is \<^verbatim>\<open>sorted(set(labels))\<close>: strings
  are ordered character by character, by code point.
\<close>

record embedding_classifier =
  ec_labels :: "string list"
  ec_embeddings :: "real list list option"
  ec_label_names :: "string list"
  ec_class_to_indices :: "(string \<times> nat list) list"
  ec_loaded :: bool

text \<open>\<^verbatim>\<open>d.setdefault(k, []).append(v)\<close> on an insertion-ordered dict.\<close>

fun setdefault_append :: "'k \<Rightarrow> 'v \<Rightarrow> ('k \<times> 'v list) list \<Rightarrow> ('k \<times> 'v list) list" where
  "setdefault_append k v [] = [(k, [v])]"
| "setdefault_append k v (p # ps) =
     (if fst p = k then (k, snd p @ [v]) # ps else p # setdefault_append k v ps)"

definition group_by_label :: "(string \<times> 'v) list \<Rightarrow> (string \<times> 'v list) list" where
  "group_by_label items = fold (\<lambda>(label, v) d. setdefault_append label v d) items []"

definition sorted_set :: "string list \<Rightarrow> string list" where
  "sorted_set labels = sort (remdups labels)"

definition rebuild_class_indices :: "embedding_classifier \<Rightarrow> embedding_classifier" where
  "rebuild_class_indices self =
     self\<lparr>ec_class_to_indices :=
            group_by_label (zip (ec_labels self) [0..<length (ec_labels self)])\<rparr>"

subsection \<open>\<^verbatim>\<open>_load_or_build_index\<close>\<close>

text \<open>
  The \<^verbatim>\<open>try\<close> block that reads the persisted index. It stores the vectors and the labels
  of the file in the object before it reads the metadata, so the state it leaves on an
  exception may hold them.
\<close>

definition try_load_index ::
  "'img runtime \<Rightarrow> world \<Rightarrow> embedding_classifier \<Rightarrow> py_error option \<times> embedding_classifier" where
  "try_load_index E W self =
     (case index_file E W of
        Missing \<Rightarrow> (Some OSError, self)
      | Corrupt \<Rightarrow> (Some ValueError, self)
      | Content data \<Rightarrow>
          (let self1 = self\<lparr>ec_embeddings := Some (idx_embeddings data)\<rparr> in
           case idx_labels data of
             ObjectArray labels \<Rightarrow> (Some ValueError, self1)
           | StringArray labels \<Rightarrow>
               (let self2 = self1\<lparr>ec_labels := labels\<rparr> in
                case meta_file W of
                  Missing \<Rightarrow> (Some OSError, self2)
                | Corrupt \<Rightarrow> (Some ValueError, self2)
                | Content meta \<Rightarrow>
                    if meta_method meta \<noteq> Some (active_method E)
                    then (Some RuntimeError, self2)
                    else
                      (let self3 = self2\<lparr>ec_label_names :=
                                     (case meta_label_names meta of
                                        Some names \<Rightarrow> names
                                      | None \<Rightarrow> sorted_set (ec_labels self2))\<rparr>;
                           self4 = rebuild_class_indices self3
                       in (None, self4\<lparr>ec_loaded := True\<rparr>)))))"

text \<open>The inner loop of the build: at most \<open>max_per_class\<close> files of a label are embedded.\<close>

definition embed_file :: "'img runtime \<Rightarrow> bytes \<Rightarrow> real list option" where
  "embed_file E data = (case pil_open E data of None \<Rightarrow> None | Some img \<Rightarrow> embed_image E img)"

fun paths_loop :: "'img runtime \<Rightarrow> nat \<Rightarrow> nat \<Rightarrow> bytes list \<Rightarrow> real list list" where
  "paths_loop E max_per_class count [] = []"
| "paths_loop E max_per_class count (p # paths) =
     (if count \<ge> max_per_class then []
      else (case embed_file E p of
              None \<Rightarrow> paths_loop E max_per_class count paths
            | Some emb \<Rightarrow> emb # paths_loop E max_per_class (count + 1) paths))"

fun classes_loop ::
  "'img runtime \<Rightarrow> nat \<Rightarrow> (string \<times> bytes list) list \<Rightarrow> (string \<times> real list) list" where
  "classes_loop E max_per_class [] = []"
| "classes_loop E max_per_class ((label, paths) # by_class) =
     map (\<lambda>emb. (label, emb)) (paths_loop E max_per_class 0 paths)
       @ classes_loop E max_per_class by_class"

text \<open>\<^verbatim>\<open>np.vstack\<close> raises on an empty list and on rows of different lengths.\<close>

definition vstack :: "real list list \<Rightarrow> py_error + real list list" where
  "vstack rows =
     (case rows of
        [] \<Rightarrow> Inl ValueError
      | r # rs \<Rightarrow> if list_all (\<lambda>r'. length r' = length r) rs then Inr rows else Inl ValueError)"

text \<open>The build, from \<^verbatim>\<open># Build index\<close> to the end of \<^verbatim>\<open>_load_or_build_index\<close>.\<close>

definition build_index ::
  "'img runtime \<Rightarrow> world \<Rightarrow> embedding_classifier \<Rightarrow> nat \<Rightarrow>
   py_error option \<times> embedding_classifier \<times> world" where
  "build_index E W self max_per_class =
     (let W1 = W\<lparr>stdout := stdout W @ [BuildingIndex]\<rparr>;
          items = dataset_items W1
      in if items = [] then (Some RuntimeError, self, W1)
         else
           (let built = classes_loop E max_per_class (group_by_label items);
                embeddings = map snd built;
                labels = map fst built
            in if embeddings = [] then (Some RuntimeError, self, W1)
               else
                 (case vstack embeddings of
                    Inl e \<Rightarrow> (Some e, self, W1)
                  | Inr stacked \<Rightarrow>
                      (let self1 = rebuild_class_indices
                                     (self\<lparr>ec_embeddings := Some stacked,
                                           ec_labels := labels,
                                           ec_label_names := sorted_set labels\<rparr>);
                           W2 = write_index_file E
                                  \<lparr>idx_embeddings = stacked, idx_labels = ObjectArray labels\<rparr> W1;
                           W3 = W2\<lparr>meta_file :=
                                     Content \<lparr>meta_label_names = Some (ec_label_names self1),
                                              meta_count = Some (length stacked),
                                              meta_method = Some (active_method E)\<rparr>\<rparr>
                       in (None, self1\<lparr>ec_loaded := True\<rparr>,
                           W3\<lparr>stdout := stdout W3 @ [BuiltIndex]\<rparr>)))))"

definition load_or_build_index ::
  "'img runtime \<Rightarrow> world \<Rightarrow> embedding_classifier \<Rightarrow> nat \<Rightarrow>
   py_error option \<times> embedding_classifier \<times> world" where
  "load_or_build_index E W self max_per_class =
     (if exists (index_file E W) \<and> exists (meta_file W) then
        (case try_load_index E W self of
           (None, self') \<Rightarrow> (None, self', W\<lparr>stdout := stdout W @ [LoadedIndex]\<rparr>)
         | (Some e, self') \<Rightarrow>
             build_index E (W\<lparr>stdout := stdout W @ [LoadFailedRebuilding e]\<rparr>) self'
               max_per_class)
      else build_index E W self max_per_class)"

subsection \<open>\<^verbatim>\<open>__init__\<close>\<close>

text \<open>
  The constructor sets the fields to their empty values and calls
  \<^verbatim>\<open>_load_or_build_index\<close>; an exception of that call is printed and dropped, and the object
  keeps the state the call left.
\<close>

definition ec_initial :: embedding_classifier where
  "ec_initial =
     \<lparr>ec_labels = [], ec_embeddings = None, ec_label_names = [],
      ec_class_to_indices = [], ec_loaded = False\<rparr>"

definition ec_init :: "'img runtime \<Rightarrow> world \<Rightarrow> embedding_classifier \<times> world" where
  "ec_init E W =
     (case load_or_build_index E W ec_initial 400 of
        (None, self', W') \<Rightarrow> (self', W')
      | (Some e, self', W') \<Rightarrow> (self', W'\<lparr>stdout := stdout W' @ [LoadOrBuildFailed e]\<rparr>))"

text \<open>
  Two names for what the build computes from the dataset with the active extractor: the
  labelled vectors its loops collect, and the state of the object when it has stored them.
\<close>

definition fresh_vectors :: "'img runtime \<Rightarrow> world \<Rightarrow> nat \<Rightarrow> (string \<times> real list) list" where
  "fresh_vectors E W max_per_class =
     classes_loop E max_per_class (group_by_label (dataset_items W))"

definition fresh_state :: "'img runtime \<Rightarrow> world \<Rightarrow> nat \<Rightarrow> embedding_classifier" where
  "fresh_state E W max_per_class =
     \<lparr>ec_labels = map fst (fresh_vectors E W max_per_class),
      ec_embeddings = Some (map snd (fresh_vectors E W max_per_class)),
      ec_label_names = sorted_set (map fst (fresh_vectors E W max_per_class)),
      ec_class_to_indices =
        group_by_label
          (zip (map fst (fresh_vectors E W max_per_class))
             [0..<length (fresh_vectors E W max_per_class)]),
      ec_loaded = True\<rparr>"

subsection \<open>\<^verbatim>\<open>classify\<close>: centroids, soft-max, best label\<close>

definition zeros_like :: "real list \<Rightarrow> real list" where
  "zeros_like v = map (\<lambda>x. 0) v"

text \<open>\<^verbatim>\<open>embeddings[idxs]\<close>: the rows at the given indices, \<^verbatim>\<open>IndexError\<close> out of range.\<close>

fun take_rows :: "real list list \<Rightarrow> nat list \<Rightarrow> py_error + real list list" where
  "take_rows embeddings [] = Inr []"
| "take_rows embeddings (i # idxs) =
     (if i < length embeddings then
        (case take_rows embeddings idxs of
           Inl e \<Rightarrow> Inl e
         | Inr rows \<Rightarrow> Inr (embeddings ! i # rows))
      else Inl IndexError)"

text \<open>\<^verbatim>\<open>rows.mean(axis=0)\<close> on a non-empty stack of rows of one length.\<close>

definition mean_axis0 :: "real list list \<Rightarrow> real list" where
  "mean_axis0 rows =
     map (\<lambda>j. sum_list (map (\<lambda>r. r ! j) rows) / real (length rows)) [0..<length (hd rows)]"

definition centroid ::
  "real list list \<Rightarrow> (string \<times> nat list) list \<Rightarrow> string \<Rightarrow> py_error + real list" where
  "centroid embeddings class_to_indices lab =
     (let idxs = (case map_of class_to_indices lab of None \<Rightarrow> [] | Some ixs \<Rightarrow> ixs) in
      if idxs = [] then
        (case embeddings of [] \<Rightarrow> Inl IndexError | row # rows \<Rightarrow> Inr (zeros_like row))
      else
        (case take_rows embeddings idxs of
           Inl e \<Rightarrow> Inl e
         | Inr rows \<Rightarrow>
             (let c = mean_axis0 rows in Inr (map (\<lambda>x. x / (l2_norm c + 1 / 10 ^ 9)) c))))"

fun centroids_loop ::
  "real list list \<Rightarrow> (string \<times> nat list) list \<Rightarrow> string list \<Rightarrow> py_error + real list list" where
  "centroids_loop embeddings class_to_indices [] = Inr []"
| "centroids_loop embeddings class_to_indices (lab # labs) =
     (case centroid embeddings class_to_indices lab of
        Inl e \<Rightarrow> Inl e
      | Inr c \<Rightarrow>
          (case centroids_loop embeddings class_to_indices labs of
             Inl e \<Rightarrow> Inl e
           | Inr cs \<Rightarrow> Inr (c # cs)))"

text \<open>\<^verbatim>\<open>centroids @ emb\<close>: one dot product per row, \<^verbatim>\<open>ValueError\<close> when the lengths differ.\<close>

definition matvec :: "real list list \<Rightarrow> real list \<Rightarrow> py_error + real list" where
  "matvec centroids emb =
     (if list_all (\<lambda>c. length c = length emb) centroids
      then Inr (map (\<lambda>c. dot c emb) centroids) else Inl ValueError)"

definition softmax :: "real list \<Rightarrow> real list" where
  "softmax logits =
     (let temp = 0.05;
          m = max_from (hd logits) (tl logits);
          exps = map (\<lambda>l. exp ((l - m) / temp)) logits
      in map (\<lambda>e. e / sum_list exps) exps)"

text \<open>\<^verbatim>\<open>np.argmax\<close>: the index of the first occurrence of the largest entry.\<close>

definition argmax :: "real list \<Rightarrow> nat" where
  "argmax xs = fst (argmax_from (0, hd xs) (zip [1..<length xs] (tl xs)))"

text \<open>The scoring part of \<^verbatim>\<open>classify\<close>, from the centroids to the returned dict.\<close>

definition centroid_probs ::
  "embedding_classifier \<Rightarrow> real list \<Rightarrow> py_error + string list \<times> real list" where
  "centroid_probs self emb =
     (case ec_embeddings self of
        None \<Rightarrow> Inl IndexError
      | Some embeddings \<Rightarrow>
          (let labs = sorted_set (ec_labels self) in
           case centroids_loop embeddings (ec_class_to_indices self) labs of
             Inl e \<Rightarrow> Inl e
           | Inr centroids \<Rightarrow>
               (case vstack centroids of
                  Inl e \<Rightarrow> Inl e
                | Inr stacked \<Rightarrow>
                    (case matvec stacked emb of
                       Inl e \<Rightarrow> Inl e
                     | Inr logits \<Rightarrow> Inr (labs, softmax logits)))))"

definition score :: "'img runtime \<Rightarrow> embedding_classifier \<Rightarrow> real list \<Rightarrow> py_error + result" where
  "score E self emb =
     (case centroid_probs self emb of
        Inl e \<Rightarrow> Inl e
      | Inr (labs, probs) \<Rightarrow>
          (let best_idx = argmax probs;
               predicted = labs ! best_idx;
               confidence = probs ! best_idx;
               all_predictions = zip labs probs
           in Inr [(''predicted_style'', PyStr predicted),
                   (''confidence_score'', PyFloat confidence),
                   (''all_predictions'', PyScores all_predictions),
                   (''method'', PyStr (if TF_AVAILABLE E then ''mobilenetv2-embeddings-knn''
                                       else ''cvhsv-embeddings-knn''))]))"

definition classify ::
  "'img runtime \<Rightarrow> world \<Rightarrow> embedding_classifier \<Rightarrow> bytes \<Rightarrow>
   (py_error + result) \<times> embedding_classifier \<times> world" where
  "classify E W self image_bytes =
     (if \<not> TF_AVAILABLE E \<and> \<not> CV2_AVAILABLE E then (Inl RuntimeError, self, W)
      else
        (case (if \<not> ec_loaded self \<or> ec_embeddings self = None
               then load_or_build_index E W self 400 else (None, self, W)) of
           (Some e, self', W') \<Rightarrow> (Inl e, self', W')
         | (None, self', W') \<Rightarrow>
             (case pil_open E image_bytes of
                None \<Rightarrow> (Inl UnidentifiedImageError, self', W')
              | Some img \<Rightarrow>
                  (case embed_image E img of
                     None \<Rightarrow> (Inl ValueError, self', W')
                   | Some emb \<Rightarrow> (score E self' emb, self', W')))))"

definition all_predictions :: "result \<Rightarrow> (string \<times> real) list option" where
  "all_predictions r =
     (case map_of r ''all_predictions'' of Some (PyScores d) \<Rightarrow> Some d | _ \<Rightarrow> None)"

text \<open>The keys of the dict \<^verbatim>\<open>DatasetClassifier.classify_image\<close> returns.\<close>

definition RESULT_KEYS :: "string list" where
  "RESULT_KEYS = [''predicted_style'', ''confidence_score'', ''style_scores'',
     ''model_version'', ''dataset_counts'']"

section \<open>Concrete inputs\<close>

text \<open>
  The feature counts \<^verbatim>\<open>_extract_features\<close> reads off a 64 by 64 image that is black all over
  and off one that is white all over: the 4096 pixels fall into the first, respectively the
  last, of the 16 bins of each colour channel, and both edge sums are 0.
\<close>

definition black_counts :: "nat list" where
  "black_counts =
     [4096, 0, 0, 0, 0, 0, 0, 0, 0, 0, 0, 0, 0, 0, 0, 0,
      4096, 0, 0, 0, 0, 0, 0, 0, 0, 0, 0, 0, 0, 0, 0, 0,
      4096, 0, 0, 0, 0, 0, 0, 0, 0, 0, 0, 0, 0, 0, 0, 0,
      0, 0]"

definition white_counts :: "nat list" where
  "white_counts =
     [0, 0, 0, 0, 0, 0, 0, 0, 0, 0, 0, 0, 0, 0, 0, 4096,
      0, 0, 0, 0, 0, 0, 0, 0, 0, 0, 0, 0, 0, 0, 0, 4096,
      0, 0, 0, 0, 0, 0, 0, 0, 0, 0, 0, 0, 0, 0, 0, 4096,
      0, 0]"

definition black_features :: "real list" where
  "black_features = map (\<lambda>x. real x / 12288) black_counts"

definition white_features :: "real list" where
  "white_features = map (\<lambda>x. real x / 12288) white_counts"

text \<open>
  A small image library. Empty data cannot be opened; the data \<open>[0]\<close> is the black image
  and \<open>[255]\<close> the white one; any other data opens (its header is read) and fails when
  its pixels are decoded.
\<close>

definition example_pil :: "8 word pil" where
  "example_pil =
     \<lparr>Image_open = (\<lambda>data. case data of [] \<Rightarrow> None | b # bs \<Rightarrow> Some b),
      raw_features = (\<lambda>b. if b = 0 then Some black_counts
                           else if b = 255 then Some white_counts else None)\<rparr>"

definition example_rng :: rng where
  "example_rng = \<lparr>random_features = replicate 50 (1 / 2), random_raw = 7\<rparr>"

text \<open>
  A dataset whose three folders hold one white image each, with 2, 5 and 3 listed files.
\<close>

definition example_dataset :: "string \<Rightarrow> folder" where
  "example_dataset folder_name =
     (if folder_name = ''warli painting'' then
        Folder [(''w1.jpg'', [255]), (''w2.jpg'', [])]
      else if folder_name = ''madhubani painting'' then
        Folder [(''m1.jpg'', [255]), (''m2.jpg'', []), (''m3.jpg'', []), (''m4.jpg'', []),
                (''m5.jpg'', [])]
      else if folder_name = ''Pithora'' then
        Folder [(''p1.jpg'', [255]), (''p2.jpg'', []), (''p3.jpg'', [])]
      else NoFolder)"

definition example_classifier :: dataset_classifier where
  "example_classifier = init example_pil (\<lambda>name. example_rng) example_dataset"

text \<open>
  An embedding runtime with TensorFlow and without OpenCV, whose extractor maps the black
  image to the first unit vector and the white image to the second; a disk that holds an
  index written by the other method, \<^verbatim>\<open>cvhsv\<close>, and a dataset of two black images, one
  per label.
\<close>

definition example_runtime :: "8 word runtime" where
  "example_runtime =
     \<lparr>TF_AVAILABLE = True, CV2_AVAILABLE = False,
      pil_open = (\<lambda>data. case data of [] \<Rightarrow> None | b # bs \<Rightarrow> Some b),
      embed_tf = (\<lambda>b. if b = 0 then Some [1, 0] else if b = 255 then Some [0, 1] else None),
      embed_cv = (\<lambda>b. None)\<rparr>"

definition example_world :: world where
  "example_world =
     \<lparr>index_file_tf =
        Content \<lparr>idx_embeddings = [[0, 1]], idx_labels = StringArray [''pithora'']\<rparr>,
      index_file_cv = Missing,
      meta_file = Content \<lparr>meta_label_names = Some [''pithora''], meta_count = Some 1,
                           meta_method = Some ''cvhsv''\<rparr>,
      dataset_items = [(''warli'', [0]), (''madhubani'', [0])],
      stdout = []\<rparr>"

text \<open>The state the build leaves for this dataset.\<close>

definition ec_built :: embedding_classifier where
  "ec_built =
     \<lparr>ec_labels = [''warli'', ''madhubani''],
      ec_embeddings = Some [[1, 0], [1, 0]],
      ec_label_names = [''madhubani'', ''warli''],
      ec_class_to_indices = [(''warli'', [0]), (''madhubani'', [1])],
      ec_loaded = True\<rparr>"

section \<open>Properties of \<^verbatim>\<open>_calculate_filename_similarity\<close>\<close>

text \<open>The substring test agrees with its usual specification.\<close>

lemma startswith_iff: "startswith t s \<longleftrightarrow> (\<exists>q. t = s @ q)"
  by (induction t s rule: startswith.induct) auto

lemma str_contains_iff: "str_contains s t \<longleftrightarrow> (\<exists>p q. t = p @ s @ q)"
proof (induction t)
  case Nil
  then show ?case by simp
next
  case (Cons c t)
  show ?case
  proof
    assume "str_contains s (c # t)"
    then consider "startswith (c # t) s" | "str_contains s t" by auto
    then show "\<exists>p q. c # t = p @ s @ q"
    proof cases
      case 1
      then obtain q where "c # t = s @ q" by (auto simp: startswith_iff)
      then have "c # t = [] @ s @ q" by simp
      then show ?thesis by blast
    next
      case 2
      with Cons.IH obtain p q where "t = p @ s @ q" by blast
      then have "c # t = (c # p) @ s @ q" by simp
      then show ?thesis by blast
    qed
  next
    assume "\<exists>p q. c # t = p @ s @ q"
    then obtain p q where pq: "c # t = p @ s @ q" by blast
    show "str_contains s (c # t)"
    proof (cases p)
      case Nil
      with pq have "startswith (c # t) s" by (auto simp: startswith_iff)
      then show ?thesis by simp
    next
      case (Cons a p')
      with pq have "t = p' @ s @ q" by simp
      with Cons.IH have "str_contains s t" by blast
      then show ?thesis by simp
    qed
  qed
qed

lemma keyword_loop_eq:
  "keyword_loop ks f = (if \<exists>k \<in> set ks. str_contains k f then 0.7 else 0)"
  by (induction ks) auto

lemma keyword_loop_values: "keyword_loop ks f \<in> {0, 0.7}"
  by (simp add: keyword_loop_eq)

lemma known_style_iff:
  "style \<in> set STYLES \<longleftrightarrow> style = ''warli'' \<or> style = ''madhubani'' \<or> style = ''pithora''"
  by (auto simp: STYLES_def)

lemma calculate_filename_similarity_eq:
  "calculate_filename_similarity filename style =
     (if style \<in> set STYLES \<and> str_contains style (lower filename) then 0.95
      else if \<exists>keyword \<in> set (case map_of style_keywords style of None \<Rightarrow> [] | Some ks \<Rightarrow> ks).
                str_contains keyword (lower filename) then 0.7
      else 0)"
  unfolding calculate_filename_similarity_def Let_def keyword_loop_eq known_style_iff
  by auto

lemma calculate_filename_similarity_values:
  "calculate_filename_similarity filename style \<in> {0, 0.7, 0.95}"
  by (simp add: calculate_filename_similarity_eq)

lemma calculate_filename_similarity_nonneg:
  "0 \<le> calculate_filename_similarity filename style"
  by (simp add: calculate_filename_similarity_eq)

lemma unknown_style_keywords:
  "style \<notin> set STYLES \<Longrightarrow> map_of style_keywords style = None"
  by (auto simp: STYLES_def style_keywords_def)

text \<open>
  Claim C8. For every filename and every label of the classifier (warli, madhubani,
  pithora) the score is one of 0, 0.7 and 0.95. It is 0.95 when the label's own name
  occurs in the lowercased filename, whatever keywords occur besides; it is 0.7 when the
  name does not occur and one of the keywords the table gives for the label does; and it
  is 0 otherwise. The filename \<^verbatim>\<open>my_warli_art.jpg\<close> scores 0.95 against warli.
\<close>

theorem filename_similarity_discrete_scale:
  assumes "style \<in> set STYLES"
  shows "calculate_filename_similarity filename style \<in> {0, 0.7, 0.95} \<and>
   calculate_filename_similarity filename style =
     (if str_contains style (lower filename) then 0.95
      else if \<exists>keyword \<in> set (case map_of style_keywords style of None \<Rightarrow> [] | Some ks \<Rightarrow> ks).
                str_contains keyword (lower filename) then 0.7
      else 0) \<and>
   calculate_filename_similarity ''my_warli_art.jpg'' ''warli'' = 0.95"
proof -
  have example: "calculate_filename_similarity ''my_warli_art.jpg'' ''warli'' = 0.95"
    by (simp add: calculate_filename_similarity_def lower_def lower_char_def)
  have cases: "calculate_filename_similarity filename style =
     (if str_contains style (lower filename) then 0.95
      else if \<exists>keyword \<in> set (case map_of style_keywords style of None \<Rightarrow> [] | Some ks \<Rightarrow> ks).
                str_contains keyword (lower filename) then 0.7
      else 0)"
    using assms by (simp add: calculate_filename_similarity_eq)
  show ?thesis
    using example cases calculate_filename_similarity_values [of filename style] by blast
qed

theorem filename_similarity_discrete_scale_witness:
  "''warli'' \<in> set STYLES \<and>
   calculate_filename_similarity ''Tribal_story.png'' ''warli'' = 0.7"
proof -
  have known: "''warli'' \<in> set STYLES" by (simp add: STYLES_def)
  have low: "lower ''Tribal_story.png'' = ''tribal_story.png''"
    by (simp add: lower_def lower_char_def char_of_def bit_Suc_0_iff)
  from filename_similarity_discrete_scale [OF known, of "''Tribal_story.png''"]
  have "calculate_filename_similarity ''Tribal_story.png'' ''warli'' = 0.7"
    by (simp add: low style_keywords_def)
  with known show ?thesis by simp
qed

text \<open>
  The function takes any string as its label. A string outside the three styles, which
  \<^verbatim>\<open>classify_image\<close> never passes, has no branch and no keywords of its own and scores 0.
\<close>

lemma other_label_scores_zero:
  "style \<notin> set STYLES \<Longrightarrow> calculate_filename_similarity filename style = 0"
  by (simp add: calculate_filename_similarity_eq unknown_style_keywords)

section \<open>Properties of \<^verbatim>\<open>max\<close>\<close>

text \<open>\<^verbatim>\<open>max(d, key=d.get)\<close> returns the first key, in insertion order, whose value is largest.\<close>

lemma argmax_from_first_max:
  "\<exists>pre post. b # kvs = pre @ argmax_from b kvs # post \<and>
      (\<forall>kv \<in> set pre. snd kv < snd (argmax_from b kvs)) \<and>
      (\<forall>kv \<in> set post. snd kv \<le> snd (argmax_from b kvs))"
proof (induction kvs arbitrary: b)
  case Nil
  show ?case by (rule exI [of _ "[]"]) simp
next
  case (Cons kv kvs)
  define b' where "b' = (if snd kv > snd b then kv else b)"
  define r where "r = argmax_from b' kvs"
  have r_eq: "argmax_from b (kv # kvs) = r" by (simp add: r_def b'_def)
  from Cons.IH [of b'] obtain pre post where
    split: "b' # kvs = pre @ r # post" and
    lt: "\<forall>x \<in> set pre. snd x < snd r" and
    le: "\<forall>x \<in> set post. snd x \<le> snd r"
    unfolding r_def by blast
  have b'_le: "snd b' \<le> snd r"
  proof -
    have "b' \<in> set (pre @ r # post)" using split by (metis list.set_intros(1))
    then show ?thesis using lt le by auto
  qed
  show ?case
  proof (cases "snd kv > snd b")
    case True
    then have "b' = kv" by (simp add: b'_def)
    then have "b # kv # kvs = (b # pre) @ r # post" using split by simp
    moreover have "snd b < snd r" using True b'_le \<open>b' = kv\<close> by simp
    ultimately have "b # kv # kvs = (b # pre) @ r # post \<and>
        (\<forall>x \<in> set (b # pre). snd x < snd r) \<and> (\<forall>x \<in> set post. snd x \<le> snd r)"
      using lt le by simp
    then show ?thesis unfolding r_eq by blast
  next
    case False
    then have b': "b' = b" by (simp add: b'_def)
    show ?thesis
    proof (cases pre)
      case Nil
      then have "r = b" "post = kvs" using split b' by auto
      then have "b # kv # kvs = [] @ r # (kv # kvs)" by simp
      moreover have "snd kv \<le> snd r" using False \<open>r = b\<close> by simp
      ultimately have "b # kv # kvs = [] @ r # (kv # kvs) \<and>
          (\<forall>x \<in> set []. snd x < snd r) \<and> (\<forall>x \<in> set (kv # kvs). snd x \<le> snd r)"
        using le \<open>post = kvs\<close> by simp
      then show ?thesis unfolding r_eq by blast
    next
      case (Cons a pre')
      then have "a = b" "kvs = pre' @ r # post" using split b' by auto
      then have "b # kv # kvs = (b # kv # pre') @ r # post" by simp
      moreover have "snd b < snd r" using lt Cons \<open>a = b\<close> by simp
      moreover have "snd kv < snd r" using False \<open>snd b < snd r\<close> by simp
      ultimately have "b # kv # kvs = (b # kv # pre') @ r # post \<and>
          (\<forall>x \<in> set (b # kv # pre'). snd x < snd r) \<and> (\<forall>x \<in> set post. snd x \<le> snd r)"
        using lt le Cons by simp
      then show ?thesis unfolding r_eq by blast
    qed
  qed
qed

lemma max_key_by_value_first_max:
  assumes "d \<noteq> []"
  shows "\<exists>k v pre post. max_key_by_value d = Inr k \<and> d = pre @ (k, v) # post \<and>
      (\<forall>kv \<in> set pre. snd kv < v) \<and> (\<forall>kv \<in> set post. snd kv \<le> v)"
proof -
  from assms obtain kv kvs where d: "d = kv # kvs" by (cases d) auto
  define r where "r = argmax_from kv kvs"
  have key: "max_key_by_value d = Inr (fst r)"
    by (simp add: d max_key_by_value_def r_def)
  from argmax_from_first_max [of kv kvs] obtain pre post where
    "d = pre @ r # post"
    "\<forall>x \<in> set pre. snd x < snd r"
    "\<forall>x \<in> set post. snd x \<le> snd r" unfolding r_def d by blast
  with key have "max_key_by_value d = Inr (fst r) \<and> d = pre @ (fst r, snd r) # post \<and>
      (\<forall>x \<in> set pre. snd x < snd r) \<and> (\<forall>x \<in> set post. snd x \<le> snd r)"
    by simp
  then show ?thesis by blast
qed

lemma max_key_by_value_empty: "max_key_by_value [] = Inl ValueError"
  by (simp add: max_key_by_value_def)

lemma max_key_by_value_mem:
  "max_key_by_value d = Inr k \<Longrightarrow> k \<in> fst ` set d"
  using max_key_by_value_first_max [of d]
  by (cases "d = []") (auto simp: max_key_by_value_empty)

lemma max_from_ge: "best \<le> max_from best xs"
proof (induction xs arbitrary: best)
  case Nil
  show ?case by simp
next
  case (Cons x xs)
  have "best \<le> (if x > best then x else best)" by simp
  also have "\<dots> \<le> max_from (if x > best then x else best) xs" by (rule Cons.IH)
  finally show ?case by simp
qed

lemma max_from_eq_Max: "max_from best xs = Max (set (best # xs))"
proof (induction xs arbitrary: best)
  case Nil
  show ?case by simp
next
  case (Cons x xs)
  have "max_from best (x # xs) = Max (set ((if x > best then x else best) # xs))"
    by (simp add: Cons.IH)
  also have "\<dots> = Max (set (best # x # xs))"
    by (cases "xs = []") (auto simp: max_def)
  finally show ?case .
qed

section \<open>Properties of \<^verbatim>\<open>DatasetClassifier.classify_image\<close>\<close>

lemma result_reads [simp]:
  "predicted_style [(''predicted_style'', PyStr s), (''confidence_score'', PyFloat c),
      (''style_scores'', PyScores d), (''model_version'', PyStr v),
      (''dataset_counts'', PyCounts n)] = Some s"
  "confidence_score [(''predicted_style'', PyStr s), (''confidence_score'', PyFloat c),
      (''style_scores'', PyScores d), (''model_version'', PyStr v),
      (''dataset_counts'', PyCounts n)] = Some c"
  "result_style_scores [(''predicted_style'', PyStr s), (''confidence_score'', PyFloat c),
      (''style_scores'', PyScores d), (''model_version'', PyStr v),
      (''dataset_counts'', PyCounts n)] = Some d"
  "model_version [(''predicted_style'', PyStr s), (''confidence_score'', PyFloat c),
      (''style_scores'', PyScores d), (''model_version'', PyStr v),
      (''dataset_counts'', PyCounts n)] = Some v"
  by (simp_all add: predicted_style_def confidence_score_def result_style_scores_def
      model_version_def)

lemma styles_loop_keys:
  "styles_loop self u f styles = Inr d \<Longrightarrow> map fst d = styles"
  by (induction styles arbitrary: d) (auto split: sum.splits)

lemma styles_loop_scores:
  "styles_loop self u f styles = Inr d \<Longrightarrow> (s, v) \<in> set d \<Longrightarrow> style_score self u f s = Inr v"
  by (induction styles arbitrary: d) (auto split: sum.splits)

lemma low_confidence_override_cases:
  assumes "low_confidence_override self b c = Inr (b', c')"
  shows "(c < 0.5 \<and> max_key_by_value (style_counts self) = Inr b' \<and> c' = 0.75) \<or>
         (0.5 \<le> c \<and> b' = b \<and> c' = c)"
  using assms by (auto simp: low_confidence_override_def split: if_splits sum.splits)

text \<open>What the try block returns, when it returns.\<close>

lemma classify_try_Inr:
  assumes "classify_try P R self image_data filename = Inr r"
  obtains img style_scores best_style confidence best_style' confidence' where
    "Image_open P image_data = Some img"
    "styles_loop self (extract_features P R img) filename STYLES = Inr style_scores"
    "max_key_by_value style_scores = Inr best_style"
    "dict_get style_scores best_style = Inr confidence"
    "low_confidence_override self best_style confidence = Inr (best_style', confidence')"
    "r = [(''predicted_style'', PyStr best_style'),
          (''confidence_score'', PyFloat (min 0.98 (confidence' + 0.15))),
          (''style_scores'', PyScores style_scores),
          (''model_version'', PyStr ''dataset-comparison-v1''),
          (''dataset_counts'', PyCounts (style_counts self))]"
  using assms unfolding classify_try_def classify_features_def Let_def
  by (auto split: option.splits sum.splits prod.splits)

lemma filename_fallback_loop_Some:
  "filename_fallback_loop f styles = Some s \<Longrightarrow>
     \<exists>pre post. styles = pre @ s # post \<and> str_contains s (lower f) \<and>
        (\<forall>s' \<in> set pre. \<not> str_contains s' (lower f))"
proof (induction styles)
  case Nil
  then show ?case by simp
next
  case (Cons a styles)
  show ?case
  proof (cases "str_contains a (lower f)")
    case True
    with Cons.prems have "a = s" by simp
    then have "a # styles = [] @ s # styles \<and> str_contains s (lower f) \<and>
        (\<forall>s' \<in> set []. \<not> str_contains s' (lower f))" using True by simp
    then show ?thesis by blast
  next
    case False
    with Cons obtain pre post where "styles = pre @ s # post" "str_contains s (lower f)"
      "\<forall>s' \<in> set pre. \<not> str_contains s' (lower f)" by auto
    then have "a # styles = (a # pre) @ s # post \<and> str_contains s (lower f) \<and>
        (\<forall>s' \<in> set (a # pre). \<not> str_contains s' (lower f))" using False by simp
    then show ?thesis by blast
  qed
qed

lemma filename_fallback_loop_None:
  "filename_fallback_loop f styles = None \<longleftrightarrow> (\<forall>s \<in> set styles. \<not> str_contains s (lower f))"
  by (induction styles) auto

lemma random_choice_STYLES:
  "random_choice R STYLES = Inr (STYLES ! (random_raw R mod 3)) \<and>
   STYLES ! (random_raw R mod 3) \<in> set STYLES"
proof -
  have "random_raw R mod 3 < length STYLES" by (simp add: STYLES_def)
  then have "STYLES ! (random_raw R mod 3) \<in> set STYLES" by (rule nth_mem)
  then show ?thesis by (simp add: random_choice_def STYLES_def)
qed

lemma classify_except_cases:
  "(\<exists>style. filename_fallback_loop filename STYLES = Some style \<and>
      classify_except R self filename =
        Inr [(''predicted_style'', PyStr style),
             (''confidence_score'', PyFloat 0.85),
             (''style_scores'', PyScores [(style, 0.85)]),
             (''model_version'', PyStr ''fallback-filename-v1''),
             (''dataset_counts'', PyCounts (style_counts self))]) \<or>
   (filename_fallback_loop filename STYLES = None \<and>
      classify_except R self filename =
        Inr [(''predicted_style'', PyStr (STYLES ! (random_raw R mod 3))),
             (''confidence_score'', PyFloat 0.72),
             (''style_scores'', PyScores [(STYLES ! (random_raw R mod 3), 0.72)]),
             (''model_version'', PyStr ''random-fallback-v1''),
             (''dataset_counts'', PyCounts (style_counts self))])"
  using random_choice_STYLES [of R]
  by (cases "filename_fallback_loop filename STYLES") (auto simp: classify_except_def)

lemma classify_image_try:
  "classify_try P R self d f = Inr r \<Longrightarrow> classify_image P R self d f = Inr r"
  by (simp add: classify_image_def)

lemma classify_image_except:
  "classify_try P R self d f = Inl e \<Longrightarrow> classify_image P R self d f = classify_except R self f"
  by (simp add: classify_image_def)

lemma confidence_bounds_try:
  assumes "classify_try P R self d f = Inr r"
  shows "\<exists>c. confidence_score r = Some c \<and> 0.65 \<le> c \<and> c \<le> 0.98"
proof -
  from assms obtain b c b' c' scores where
    ov: "low_confidence_override self b c = Inr (b', c')" and
    r: "r = [(''predicted_style'', PyStr b'),
          (''confidence_score'', PyFloat (min 0.98 (c' + 0.15))),
          (''style_scores'', PyScores scores),
          (''model_version'', PyStr ''dataset-comparison-v1''),
          (''dataset_counts'', PyCounts (style_counts self))]"
    by (rule classify_try_Inr)
  define m where "m = min 0.98 (c' + 0.15)"
  from low_confidence_override_cases [OF ov] have "0.5 \<le> c'" by auto
  then have bounds: "0.65 \<le> m \<and> m \<le> 0.98"
    unfolding m_def min_def by auto
  have "confidence_score r = Some m" unfolding r m_def by simp
  with bounds show ?thesis by blast
qed

lemma confidence_bounds_except:
  "\<exists>r. classify_except R self f = Inr r \<and>
     (confidence_score r = Some 0.85 \<or> confidence_score r = Some 0.72)"
  using classify_except_cases [of f R self] by auto

text \<open>
  Claim C4. For every image input and filename, \<^verbatim>\<open>classify_image\<close> returns a result whose
  \<^verbatim>\<open>confidence_score\<close> lies between 0 and 0.98: the main path ends in
  \<^verbatim>\<open>min(0.98, confidence + 0.15)\<close>, the filename fallback gives 0.85 and the random fallback
  0.72.
\<close>

theorem confidence_clamp:
  "\<exists>r c. classify_image P R self image_data filename = Inr r \<and>
     confidence_score r = Some c \<and> 0 \<le> c \<and> c \<le> 0.98"
proof (cases "classify_try P R self image_data filename")
  case (Inl e)
  from confidence_bounds_except [of R self filename] obtain r where
    r: "classify_except R self filename = Inr r" and
    "confidence_score r = Some 0.85 \<or> confidence_score r = Some 0.72" by blast
  then have "\<exists>c. confidence_score r = Some c \<and> 0 \<le> c \<and> c \<le> 0.98" by auto
  then show ?thesis using classify_image_except [OF Inl] r by auto
next
  case (Inr r)
  from confidence_bounds_try [OF Inr] obtain c where
    "confidence_score r = Some c" "0.65 \<le> c" "c \<le> 0.98" by blast
  then show ?thesis using classify_image_try [OF Inr] by auto
qed

subsection \<open>The state \<^verbatim>\<open>__init__\<close> builds\<close>

text \<open>
  \<^verbatim>\<open>style_counts\<close> always has the three styles as its keys, in their order: the loader
  only assigns to keys that are there, or replaces the whole dict by one with the same keys.
\<close>

lemma dict_set_keys: "k \<in> fst ` set d \<Longrightarrow> map fst (dict_set k v d) = map fst d"
  by (induction d) auto

lemma folders_loop_keys:
  "snd ` set mapping \<subseteq> fst ` set (style_counts self) \<Longrightarrow>
   map fst (style_counts (snd (folders_loop P R dataset mapping self))) = map fst (style_counts self)"
proof (induction mapping arbitrary: self)
  case Nil
  show ?case by simp
next
  case (Cons fm mapping)
  obtain folder_name style where fm: "fm = (folder_name, style)" by (cases fm)
  from Cons.prems fm have style: "style \<in> fst ` set (style_counts self)"
    and rest: "snd ` set mapping \<subseteq> fst ` set (style_counts self)" by auto
  show ?case
  proof (cases "dataset folder_name")
    case NoFolder
    then show ?thesis using Cons.IH [OF rest] fm by simp
  next
    case Unreadable
    then show ?thesis using fm by simp
  next
    case (Folder image_files)
    define self' where "self' =
      self\<lparr>style_counts := dict_set style (length image_files) (style_counts self),
           reference_features :=
             (reference_features self)(style \<mapsto> references_loop P R (take 10 image_files))\<rparr>"
    have keys: "map fst (style_counts self') = map fst (style_counts self)"
      using style by (simp add: self'_def dict_set_keys)
    then have "fst ` set (style_counts self') = fst ` set (style_counts self)"
      by (metis list.set_map)
    with rest have "snd ` set mapping \<subseteq> fst ` set (style_counts self')" by simp
    from Cons.IH [OF this] keys show ?thesis using Folder fm by (simp add: self'_def)
  qed
qed

lemma init_style_counts_keys: "map fst (style_counts (init P R dataset)) = STYLES"
proof -
  define self0 :: dataset_classifier where "self0 =
    \<lparr>reference_features = Map.empty,
     style_counts = [(''warli'', 0), (''madhubani'', 0), (''pithora'', 0)]\<rparr>"
  have "snd ` set folder_mapping \<subseteq> fst ` set (style_counts self0)"
    by (simp add: folder_mapping_def self0_def)
  from folders_loop_keys [OF this, of P R dataset]
  have "map fst (style_counts (snd (folders_loop P R dataset folder_mapping self0))) = STYLES"
    by (simp add: self0_def STYLES_def)
  then show ?thesis
    unfolding init_def load_reference_images_def self0_def [symmetric]
    by (cases "folders_loop P R dataset folder_mapping self0")
       (auto simp: STYLES_def split: option.splits)
qed

lemma example_classifier_eq:
  "style_counts example_classifier = [(''warli'', 2), (''madhubani'', 5), (''pithora'', 3)]"
  by (simp add: example_classifier_def init_def load_reference_images_def folder_mapping_def
      example_dataset_def example_pil_def)

subsection \<open>Well-formed results\<close>

lemma distinct_STYLES: "distinct STYLES"
  by (simp add: STYLES_def)

lemma map_of_first:
  "distinct (map fst (pre @ (k, v) # post)) \<Longrightarrow> map_of (pre @ (k, v) # post) k = Some v"
  by (induction pre) (auto simp: rev_image_eqI)

lemma best_style_lookup:
  assumes "distinct (map fst d)" "d \<noteq> []"
  shows "\<exists>k v pre post. max_key_by_value d = Inr k \<and> dict_get d k = Inr v \<and>
      d = pre @ (k, v) # post \<and>
      (\<forall>kv \<in> set pre. snd kv < v) \<and> (\<forall>kv \<in> set post. snd kv \<le> v)"
proof -
  from max_key_by_value_first_max [OF assms(2)] obtain k v pre post where
    k: "max_key_by_value d = Inr k" and d: "d = pre @ (k, v) # post" and
    b: "\<forall>kv \<in> set pre. snd kv < v" "\<forall>kv \<in> set post. snd kv \<le> v" by blast
  from assms(1) d have "map_of d k = Some v" using map_of_first by metis
  then have "dict_get d k = Inr v" by (simp add: dict_get_def)
  with k d b show ?thesis by blast
qed

lemma classify_try_predicted_known:
  assumes r: "classify_try P R self image_data filename = Inr r"
    and keys: "fst ` set (style_counts self) \<subseteq> set STYLES"
  shows "\<exists>s. predicted_style r = Some s \<and> s \<in> set STYLES"
proof -
  from r obtain img scores b c b' c' where
    sc: "styles_loop self (extract_features P R img) filename STYLES = Inr scores" and
    mx: "max_key_by_value scores = Inr b" and
    ov: "low_confidence_override self b c = Inr (b', c')" and
    r: "r = [(''predicted_style'', PyStr b'),
          (''confidence_score'', PyFloat (min 0.98 (c' + 0.15))),
          (''style_scores'', PyScores scores),
          (''model_version'', PyStr ''dataset-comparison-v1''),
          (''dataset_counts'', PyCounts (style_counts self))]"
    by (rule classify_try_Inr)
  have "b \<in> set STYLES"
    using max_key_by_value_mem [OF mx] styles_loop_keys [OF sc] by (metis list.set_map)
  moreover have "b' \<in> set STYLES" if "max_key_by_value (style_counts self) = Inr b'"
    using max_key_by_value_mem [OF that] keys by auto
  ultimately have "b' \<in> set STYLES"
    using low_confidence_override_cases [OF ov] by auto
  then show ?thesis unfolding r by simp
qed

lemma classify_try_keys:
  assumes "classify_try P R self image_data filename = Inr r"
  shows "map fst r = RESULT_KEYS \<and> model_version r = Some ''dataset-comparison-v1''"
  using assms by (elim classify_try_Inr) (simp add: RESULT_KEYS_def)

lemma nth_STYLES_mem: "STYLES ! (n mod 3) \<in> set STYLES"
  using random_choice_STYLES [of "\<lparr>random_features = [], random_raw = n\<rparr>"] by simp

lemma filename_fallback_loop_mem:
  "filename_fallback_loop f styles = Some s \<Longrightarrow> s \<in> set styles"
  using filename_fallback_loop_Some [of f styles s] by auto

lemma classify_except_wellformed:
  "\<exists>r s. classify_except R self f = Inr r \<and> map fst r = RESULT_KEYS \<and>
     predicted_style r = Some s \<and> s \<in> set STYLES \<and>
     (confidence_score r = Some 0.85 \<or> confidence_score r = Some 0.72)"
  using classify_except_cases [of f R self] nth_STYLES_mem [of "random_raw R"]
    filename_fallback_loop_mem [of f STYLES]
  by (auto simp: RESULT_KEYS_def)

text \<open>
  Claim C10. For every classifier that \<^verbatim>\<open>__init__\<close> can build, every bytes input and every
  filename, \<^verbatim>\<open>classify_image\<close> returns (no exception leaves it) a dict with exactly the five
  keys \<^verbatim>\<open>predicted_style\<close>, \<^verbatim>\<open>confidence_score\<close>, \<^verbatim>\<open>style_scores\<close>, \<^verbatim>\<open>model_version\<close> and
  \<^verbatim>\<open>dataset_counts\<close>; its predicted style is one of the three known labels and its
  confidence is at least 0.65.
\<close>

theorem classify_image_total:
  "\<exists>r s c. classify_image P R (init P R0 dataset) image_data filename = Inr r \<and>
     map fst r = RESULT_KEYS \<and>
     predicted_style r = Some s \<and> s \<in> set STYLES \<and>
     confidence_score r = Some c \<and> 0.65 \<le> c"
proof (cases "classify_try P R (init P R0 dataset) image_data filename")
  case (Inl e)
  from classify_except_wellformed [of R "init P R0 dataset" filename] obtain r s where
    r: "classify_except R (init P R0 dataset) filename = Inr r" "map fst r = RESULT_KEYS"
      "predicted_style r = Some s" "s \<in> set STYLES" and
    "confidence_score r = Some 0.85 \<or> confidence_score r = Some 0.72" by blast
  then have "\<exists>c. confidence_score r = Some c \<and> 0.65 \<le> c" by auto
  with r show ?thesis using classify_image_except [OF Inl] by auto
next
  case (Inr r)
  have "fst ` set (style_counts (init P R0 dataset)) \<subseteq> set STYLES"
    using init_style_counts_keys [of P R0 dataset] by (metis list.set_map subset_refl)
  from classify_try_predicted_known [OF Inr this] obtain s where
    "predicted_style r = Some s" "s \<in> set STYLES" by blast
  moreover from confidence_bounds_try [OF Inr] obtain c where
    "confidence_score r = Some c" "0.65 \<le> c" by blast
  moreover have "map fst r = RESULT_KEYS" using classify_try_keys [OF Inr] by simp
  ultimately show ?thesis using classify_image_try [OF Inr] by blast
qed

subsection \<open>The concrete inputs evaluated\<close>

lemma ex_open: "Image_open example_pil [] = None" "Image_open example_pil (b # bs) = Some b"
  by (simp_all add: example_pil_def)

lemma ex_try_fail: "classify_try example_pil R self [] f = Inl UnidentifiedImageError"
  by (simp add: classify_try_def ex_open)

lemma lower1: "lower ''Warli_scan.JPG'' = ''warli_scan.jpg''"
  by (simp add: lower_def lower_char_def char_of_def bit_Suc_0_iff)

lemma ex_fallback_filename:
  "classify_image example_pil example_rng example_classifier [] ''Warli_scan.JPG'' =
     Inr [(''predicted_style'', PyStr ''warli''),
          (''confidence_score'', PyFloat 0.85),
          (''style_scores'', PyScores [(''warli'', 0.85)]),
          (''model_version'', PyStr ''fallback-filename-v1''),
          (''dataset_counts'', PyCounts [(''warli'', 2), (''madhubani'', 5), (''pithora'', 3)])]"
  by (simp add: classify_image_def ex_try_fail classify_except_def STYLES_def lower1
      example_classifier_eq)

lemma lower2: "lower ''IMG_0042.png'' = ''img_0042.png''"
  by (simp add: lower_def lower_char_def char_of_def bit_Suc_0_iff)

lemma ex_fallback_random:
  "classify_image example_pil example_rng example_classifier [] ''IMG_0042.png'' =
     Inr [(''predicted_style'', PyStr ''madhubani''),
          (''confidence_score'', PyFloat 0.72),
          (''style_scores'', PyScores [(''madhubani'', 0.72)]),
          (''model_version'', PyStr ''random-fallback-v1''),
          (''dataset_counts'', PyCounts [(''warli'', 2), (''madhubani'', 5), (''pithora'', 3)])]"
  by (simp add: classify_image_def ex_try_fail classify_except_def STYLES_def lower2
      example_classifier_eq random_choice_def example_rng_def)

lemma ex_white: "extract_features example_pil R 255 = white_features"
  by (simp add: extract_features_def example_pil_def white_counts_def white_features_def)

lemma ex_black: "extract_features example_pil R 0 = black_features"
  by (simp add: extract_features_def example_pil_def black_counts_def black_features_def)

lemma ex_refs:
  "reference_features example_classifier =
     [''warli'' \<mapsto> [\<lparr>rd_features = white_features, rd_filename = ''w1.jpg''\<rparr>],
      ''madhubani'' \<mapsto> [\<lparr>rd_features = white_features, rd_filename = ''m1.jpg''\<rparr>],
      ''pithora'' \<mapsto> [\<lparr>rd_features = white_features, rd_filename = ''p1.jpg''\<rparr>]]"
  by (simp add: example_classifier_def init_def load_reference_images_def folder_mapping_def
      example_dataset_def ex_white ex_open)

lemma cos_bw: "cosine_similarity black_features white_features = Inr 0"
  by (simp add: cosine_similarity_def black_features_def white_features_def black_counts_def
      white_counts_def normalize_row_def l2_norm_def dot_def Let_def)

lemma cos_ww: "cosine_similarity white_features white_features = Inr 1"
  by (simp add: cosine_similarity_def black_features_def white_features_def black_counts_def
      white_counts_def normalize_row_def l2_norm_def dot_def Let_def)

subsection \<open>The fallbacks of the handler\<close>

text \<open>
  Claim C9. Whenever the \<^verbatim>\<open>try\<close> block of \<^verbatim>\<open>classify_image\<close> fails, whatever the
  exception, the call still returns a result. If the name of a style occurs in the
  lowercased filename, the result predicts the first such style (in the order warli,
  madhubani, pithora) with confidence 0.85 and method identifier
  \<^verbatim>\<open>fallback-filename-v1\<close>; only if none occurs does it predict the label
  \<^verbatim>\<open>random.choice\<close> draws among the three, with confidence 0.72 and identifier
  \<^verbatim>\<open>random-fallback-v1\<close>. The two identifiers differ from each other and from
  \<^verbatim>\<open>dataset-comparison-v1\<close>, which every result of the main path carries.
\<close>

theorem fallback_chain:
  assumes "classify_try P R self image_data filename = Inl e"
  shows "\<exists>r. classify_image P R self image_data filename = Inr r \<and>
     ((\<exists>style \<in> set STYLES. str_contains style (lower filename)) \<longrightarrow>
        (\<exists>pre style post. STYLES = pre @ style # post \<and>
           str_contains style (lower filename) \<and>
           (\<forall>s \<in> set pre. \<not> str_contains s (lower filename)) \<and>
           predicted_style r = Some style \<and> confidence_score r = Some 0.85 \<and>
           model_version r = Some ''fallback-filename-v1'')) \<and>
     ((\<forall>style \<in> set STYLES. \<not> str_contains style (lower filename)) \<longrightarrow>
        predicted_style r = Some (STYLES ! (random_raw R mod 3)) \<and>
        STYLES ! (random_raw R mod 3) \<in> set STYLES \<and>
        confidence_score r = Some 0.72 \<and>
        model_version r = Some ''random-fallback-v1'') \<and>
     model_version r \<noteq> Some ''dataset-comparison-v1'' \<and>
     ''fallback-filename-v1'' \<noteq> ''random-fallback-v1'' \<and>
     (\<forall>r' image_data' filename'.
        classify_try P R self image_data' filename' = Inr r' \<longrightarrow>
        classify_image P R self image_data' filename' = Inr r' \<and>
        model_version r' = Some ''dataset-comparison-v1'')"
proof -
  have main: "\<forall>r' image_data' filename'.
        classify_try P R self image_data' filename' = Inr r' \<longrightarrow>
        classify_image P R self image_data' filename' = Inr r' \<and>
        model_version r' = Some ''dataset-comparison-v1''"
    using classify_try_keys classify_image_try by blast
  have img: "classify_image P R self image_data filename = classify_except R self filename"
    using assms by (rule classify_image_except)
  show ?thesis
  proof (cases "filename_fallback_loop filename STYLES")
    case None
    then have no: "\<forall>style \<in> set STYLES. \<not> str_contains style (lower filename)"
      by (simp add: filename_fallback_loop_None)
    from None classify_except_cases [of filename R self]
    have "classify_except R self filename =
        Inr [(''predicted_style'', PyStr (STYLES ! (random_raw R mod 3))),
             (''confidence_score'', PyFloat 0.72),
             (''style_scores'', PyScores [(STYLES ! (random_raw R mod 3), 0.72)]),
             (''model_version'', PyStr ''random-fallback-v1''),
             (''dataset_counts'', PyCounts (style_counts self))]" by simp
    then show ?thesis using img no main nth_STYLES_mem [of "random_raw R"] by simp
  next
    case (Some style)
    from filename_fallback_loop_Some [OF Some] obtain pre post where
      first: "STYLES = pre @ style # post" "str_contains style (lower filename)"
        "\<forall>s \<in> set pre. \<not> str_contains s (lower filename)" by blast
    then have some: "\<not> (\<forall>style \<in> set STYLES. \<not> str_contains style (lower filename))"
      by (metis in_set_conv_decomp)
    from Some classify_except_cases [of filename R self]
    have ex: "classify_except R self filename =
        Inr [(''predicted_style'', PyStr style),
             (''confidence_score'', PyFloat 0.85),
             (''style_scores'', PyScores [(style, 0.85)]),
             (''model_version'', PyStr ''fallback-filename-v1''),
             (''dataset_counts'', PyCounts (style_counts self))]" by simp
    define r where "r = [(''predicted_style'', PyStr style),
             (''confidence_score'', PyFloat 0.85),
             (''style_scores'', PyScores [(style, 0.85)]),
             (''model_version'', PyStr ''fallback-filename-v1''),
             (''dataset_counts'', PyCounts (style_counts self))]"
    have r: "predicted_style r = Some style" "confidence_score r = Some 0.85"
      "model_version r = Some ''fallback-filename-v1''" by (simp_all add: r_def)
    have A: "(\<exists>style \<in> set STYLES. str_contains style (lower filename)) \<longrightarrow>
        (\<exists>pre style post. STYLES = pre @ style # post \<and>
           str_contains style (lower filename) \<and>
           (\<forall>s \<in> set pre. \<not> str_contains s (lower filename)) \<and>
           predicted_style r = Some style \<and> confidence_score r = Some 0.85 \<and>
           model_version r = Some ''fallback-filename-v1'')"
      using first r by blast
    have B: "(\<forall>style \<in> set STYLES. \<not> str_contains style (lower filename)) \<longrightarrow>
        predicted_style r = Some (STYLES ! (random_raw R mod 3)) \<and>
        STYLES ! (random_raw R mod 3) \<in> set STYLES \<and>
        confidence_score r = Some 0.72 \<and>
        model_version r = Some ''random-fallback-v1''"
      using some by blast
    have C: "classify_image P R self image_data filename = Inr r"
      using img ex by (simp add: r_def)
    have D: "model_version r \<noteq> Some ''dataset-comparison-v1''" using r by simp
    have E: "''fallback-filename-v1'' \<noteq> ''random-fallback-v1''" by simp
    show ?thesis
      by (rule exI [of _ r]) (use A B C D E main in blast)
  qed
qed

theorem fallback_chain_witness:
  "classify_try example_pil example_rng example_classifier [] ''IMG_0042.png''
     = Inl UnidentifiedImageError \<and>
   (\<exists>r. classify_image example_pil example_rng example_classifier [] ''IMG_0042.png'' = Inr r \<and>
      predicted_style r = Some ''madhubani'' \<and> confidence_score r = Some 0.72 \<and>
      model_version r = Some ''random-fallback-v1'')"
  using fallback_chain [OF ex_try_fail, of example_rng example_classifier "''IMG_0042.png''"]
  by (simp add: ex_try_fail lower2 STYLES_def example_rng_def) blast

text \<open>The random fallback can return each of the three labels.\<close>

lemma every_style_can_be_drawn:
  assumes "style \<in> set STYLES"
  shows "\<exists>n. random_choice \<lparr>random_features = v, random_raw = n\<rparr> STYLES = Inr style"
proof -
  consider "style = ''warli''" | "style = ''madhubani''" | "style = ''pithora''"
    using assms known_style_iff by blast
  then show ?thesis
  proof cases
    case 1
    then have "random_choice \<lparr>random_features = v, random_raw = 0\<rparr> STYLES = Inr style"
      by (simp add: random_choice_def STYLES_def)
    then show ?thesis ..
  next
    case 2
    then have "random_choice \<lparr>random_features = v, random_raw = 1\<rparr> STYLES = Inr style"
      by (simp add: random_choice_def STYLES_def)
    then show ?thesis ..
  next
    case 3
    then have "random_choice \<lparr>random_features = v, random_raw = 2\<rparr> STYLES = Inr style"
      by (simp add: random_choice_def STYLES_def)
    then show ?thesis ..
  qed
qed

subsection \<open>Images that cannot be decoded\<close>

lemma classify_try_open_fails:
  "Image_open P image_data = None \<Longrightarrow>
   classify_try P R self image_data filename = Inl UnidentifiedImageError"
  by (simp add: classify_try_def)

lemma classify_try_extraction_fails:
  "Image_open P image_data = Some img \<Longrightarrow> raw_features P img = None \<Longrightarrow>
   classify_try P R self image_data filename = classify_features self (random_features R) filename"
  by (simp add: classify_try_def extract_features_def)

text \<open>
  Claim C2, as the code has it. The code has no \<^verbatim>\<open>ImageDecodeError\<close> and lets no error out
  of \<^verbatim>\<open>classify_image\<close>. When the image cannot be opened the call returns an ordinary
  result from the handler: the filename fallback (confidence 0.85, identifier
  \<^verbatim>\<open>fallback-filename-v1\<close>) or the random fallback (confidence 0.72, identifier
  \<^verbatim>\<open>random-fallback-v1\<close>). When the image opens and the feature extraction fails,
  \<^verbatim>\<open>_extract_features\<close> returns the random vector instead and the main comparison goes on
  with it.
\<close>

theorem undecodable_image_degrades:
  "(Image_open P image_data = None \<longrightarrow>
      (\<exists>r. classify_image P R self image_data filename = Inr r \<and>
         (model_version r = Some ''fallback-filename-v1'' \<and> confidence_score r = Some 0.85 \<or>
          model_version r = Some ''random-fallback-v1'' \<and> confidence_score r = Some 0.72))) \<and>
   (Image_open P image_data = Some img \<and> raw_features P img = None \<longrightarrow>
      extract_features P R img = random_features R \<and>
      classify_try P R self image_data filename =
        classify_features self (random_features R) filename)"
proof (intro conjI impI)
  assume none: "Image_open P image_data = None"
  have "classify_image P R self image_data filename = classify_except R self filename"
    using classify_try_open_fails [OF none] by (rule classify_image_except)
  then show "\<exists>r. classify_image P R self image_data filename = Inr r \<and>
         (model_version r = Some ''fallback-filename-v1'' \<and> confidence_score r = Some 0.85 \<or>
          model_version r = Some ''random-fallback-v1'' \<and> confidence_score r = Some 0.72)"
    using classify_except_cases [of filename R self] by auto
next
  assume "Image_open P image_data = Some img \<and> raw_features P img = None"
  then show "extract_features P R img = random_features R"
    by (simp add: extract_features_def)
next
  assume "Image_open P image_data = Some img \<and> raw_features P img = None"
  then show "classify_try P R self image_data filename =
        classify_features self (random_features R) filename"
    by (simp add: classify_try_extraction_fails)
qed

theorem undecodable_image_degrades_witness:
  "Image_open example_pil [] = None \<and>
   (\<exists>r. classify_image example_pil example_rng example_classifier [] ''Warli_scan.JPG'' = Inr r \<and>
      model_version r = Some ''fallback-filename-v1'' \<and> confidence_score r = Some 0.85) \<and>
   Image_open example_pil [7] = Some 7 \<and> raw_features example_pil 7 = None \<and>
   extract_features example_pil example_rng 7 = random_features example_rng"
proof -
  have "raw_features example_pil 7 = None" by (simp add: example_pil_def)
  moreover have "\<not> (model_version r = Some ''random-fallback-v1'')"
    if "classify_image example_pil example_rng example_classifier [] ''Warli_scan.JPG'' = Inr r"
    for r using that by (simp add: ex_fallback_filename) (auto)
  ultimately show ?thesis
    using undecodable_image_degrades [of example_pil "[]" example_rng example_classifier
        "''Warli_scan.JPG''" 7]
      undecodable_image_degrades [of example_pil "[7]" example_rng example_classifier
        "''Warli_scan.JPG''" 7]
    by (auto simp: ex_open)
qed

text \<open>
  The claim as stated wants an error for data that cannot be opened. For such data and
  the filename \<^verbatim>\<open>Warli_scan.JPG\<close> the call returns a classification with confidence 0.85.
\<close>

theorem undecodable_image_counterexample:
  "Image_open example_pil [] = None \<and>
   classify_image example_pil example_rng example_classifier [] ''Warli_scan.JPG'' =
     Inr [(''predicted_style'', PyStr ''warli''),
          (''confidence_score'', PyFloat 0.85),
          (''style_scores'', PyScores [(''warli'', 0.85)]),
          (''model_version'', PyStr ''fallback-filename-v1''),
          (''dataset_counts'', PyCounts [(''warli'', 2), (''madhubani'', 5), (''pithora'', 3)])]"
  by (simp add: ex_open ex_fallback_filename)

subsection \<open>The main path at the concrete inputs\<close>

lemma ex_scores_black:
  "styles_loop example_classifier black_features ''IMG_0042.png'' STYLES =
     Inr [(''warli'', 0), (''madhubani'', 0), (''pithora'', 0)]"
  by (simp add: STYLES_def style_score_def ex_refs cos_bw py_max_def
      calculate_filename_similarity_def lower2 style_keywords_def)

lemma lower3: "lower ''tribal_story.png'' = ''tribal_story.png''"
  by (simp add: lower_def lower_char_def)

lemma ex_scores_tribal:
  "styles_loop example_classifier black_features ''tribal_story.png'' STYLES =
     Inr [(''warli'', 0.21), (''madhubani'', 0), (''pithora'', 0)]"
  by (simp add: STYLES_def style_score_def ex_refs cos_bw py_max_def
      calculate_filename_similarity_def lower3 style_keywords_def)

lemma ex_classify_black:
  "classify_image example_pil example_rng example_classifier [0] ''IMG_0042.png'' =
     Inr [(''predicted_style'', PyStr ''madhubani''),
          (''confidence_score'', PyFloat 0.9),
          (''style_scores'', PyScores [(''warli'', 0), (''madhubani'', 0), (''pithora'', 0)]),
          (''model_version'', PyStr ''dataset-comparison-v1''),
          (''dataset_counts'', PyCounts [(''warli'', 2), (''madhubani'', 5), (''pithora'', 3)])]"
  by (simp add: classify_image_def classify_try_def ex_open ex_black classify_features_def
      ex_scores_black max_key_by_value_def dict_get_def low_confidence_override_def
      example_classifier_eq)

lemma ex_classify_tribal:
  "classify_image example_pil example_rng example_classifier [0] ''tribal_story.png'' =
     Inr [(''predicted_style'', PyStr ''madhubani''),
          (''confidence_score'', PyFloat 0.9),
          (''style_scores'', PyScores [(''warli'', 0.21), (''madhubani'', 0), (''pithora'', 0)]),
          (''model_version'', PyStr ''dataset-comparison-v1''),
          (''dataset_counts'', PyCounts [(''warli'', 2), (''madhubani'', 5), (''pithora'', 3)])]"
  by (simp add: classify_image_def classify_try_def ex_open ex_black classify_features_def
      ex_scores_tribal max_key_by_value_def dict_get_def low_confidence_override_def
      example_classifier_eq)

subsection \<open>The low-confidence override\<close>

lemma styles_loop_lookup:
  assumes "styles_loop self u f styles = Inr d" "distinct styles" "style \<in> set styles"
  shows "\<exists>v. map_of d style = Some v \<and> style_score self u f style = Inr v"
proof -
  have keys: "map fst d = styles" using assms(1) by (rule styles_loop_keys)
  with assms(3) obtain v where v: "(style, v) \<in> set d"
    by (metis (no_types, opaque_lifting) fst_conv imageE list.set_map prod.collapse)
  have "distinct (map fst d)" using keys assms(2) by simp
  then have "map_of d style = Some v" using v by simp
  moreover have "style_score self u f style = Inr v"
    using styles_loop_scores [OF assms(1) v] .
  ultimately show ?thesis by blast
qed

lemma low_scores_winner:
  assumes "styles_loop self u f STYLES = Inr d"
  shows "\<exists>best w pre post. max_key_by_value d = Inr best \<and> dict_get d best = Inr w \<and>
      d = pre @ (best, w) # post \<and>
      (\<forall>kv \<in> set pre. snd kv < w) \<and> (\<forall>kv \<in> set post. snd kv \<le> w)"
proof -
  have keys: "map fst d = STYLES" using assms by (rule styles_loop_keys)
  then have "distinct (map fst d)" by (simp add: distinct_STYLES)
  moreover have "d \<noteq> []" using keys by (auto simp: STYLES_def)
  ultimately show ?thesis by (rule best_style_lookup)
qed

text \<open>
  Claim C1, as the code has it. When the image opens, the scores of the three styles are
  computed and every one of them, so the winning one, is strictly below 0.5, then
  \<^verbatim>\<open>classify_image\<close> predicts the style with the largest recorded count (the first such
  style in the order of \<^verbatim>\<open>style_counts\<close>). The default 0.75 it then assigns passes through
  the boost \<^verbatim>\<open>min(0.98, confidence + 0.15)\<close> like every confidence of the main path, so the
  returned \<^verbatim>\<open>confidence_score\<close> is 0.9.
\<close>

theorem low_score_override:
  assumes opened: "Image_open P image_data = Some img"
    and scores: "styles_loop self (extract_features P R img) filename STYLES = Inr style_scores"
    and low: "\<forall>kv \<in> set style_scores. snd kv < 0.5"
    and counts: "style_counts self \<noteq> []"
  shows "\<exists>r k n pre post. classify_image P R self image_data filename = Inr r \<and>
      predicted_style r = Some k \<and>
      style_counts self = pre @ (k, n) # post \<and>
      (\<forall>kv \<in> set pre. snd kv < n) \<and> (\<forall>kv \<in> set post. snd kv \<le> n) \<and>
      confidence_score r = Some 0.9 \<and>
      model_version r = Some ''dataset-comparison-v1''"
proof -
  from low_scores_winner [OF scores] obtain best w pre0 post0 where
    best: "max_key_by_value style_scores = Inr best" "dict_get style_scores best = Inr w" and
    d: "style_scores = pre0 @ (best, w) # post0" by blast
  have "(best, w) \<in> set style_scores" using d by simp
  with low have w: "w < 0.5" by auto
  from max_key_by_value_first_max [OF counts] obtain k n pre post where
    k: "max_key_by_value (style_counts self) = Inr k" and
    c: "style_counts self = pre @ (k, n) # post"
      "\<forall>kv \<in> set pre. snd kv < n" "\<forall>kv \<in> set post. snd kv \<le> n" by blast
  define r where "r = [(''predicted_style'', PyStr k),
          (''confidence_score'', PyFloat (0.9::real)),
          (''style_scores'', PyScores style_scores),
          (''model_version'', PyStr ''dataset-comparison-v1''),
          (''dataset_counts'', PyCounts (style_counts self))]"
  have "classify_features self (extract_features P R img) filename = Inr r"
    using scores best w k
    by (simp add: classify_features_def low_confidence_override_def r_def)
  then have "classify_try P R self image_data filename = Inr r"
    using opened by (simp add: classify_try_def)
  then have "classify_image P R self image_data filename = Inr r"
    by (rule classify_image_try)
  moreover have "predicted_style r = Some k" "confidence_score r = Some 0.9"
    "model_version r = Some ''dataset-comparison-v1''" by (simp_all add: r_def)
  ultimately show ?thesis using c by blast
qed

theorem low_score_override_witness:
  "Image_open example_pil [0] = Some 0 \<and>
   styles_loop example_classifier (extract_features example_pil example_rng 0)
       ''IMG_0042.png'' STYLES
     = Inr [(''warli'', 0), (''madhubani'', 0), (''pithora'', 0)] \<and>
   style_counts example_classifier = [(''warli'', 2), (''madhubani'', 5), (''pithora'', 3)] \<and>
   (\<exists>r. classify_image example_pil example_rng example_classifier [0] ''IMG_0042.png'' = Inr r \<and>
      predicted_style r = Some ''madhubani'' \<and> confidence_score r = Some 0.9)"
proof -
  have a: "Image_open example_pil [0] = Some 0" by (simp add: ex_open)
  have b: "styles_loop example_classifier (extract_features example_pil example_rng 0)
       ''IMG_0042.png'' STYLES = Inr [(''warli'', 0), (''madhubani'', 0), (''pithora'', 0)]"
    by (simp add: ex_black ex_scores_black)
  have c: "\<forall>kv \<in> set [(''warli'', 0::real), (''madhubani'', 0), (''pithora'', 0)]. snd kv < 0.5"
    by simp
  have d: "style_counts example_classifier \<noteq> []" by (simp add: example_classifier_eq)
  from low_score_override [OF a b c d] obtain r k where
    "classify_image example_pil example_rng example_classifier [0] ''IMG_0042.png'' = Inr r"
    "predicted_style r = Some k" "confidence_score r = Some 0.9" by blast
  moreover from this have "predicted_style r = Some ''madhubani''"
    by (auto simp: ex_classify_black)
  ultimately show ?thesis using a b by (auto simp: example_classifier_eq)
qed

text \<open>
  The claim as stated wants confidence 0.75. For the black image, which has similarity 0 to
  every reference sample, and a filename without any keyword, all three scores are 0 and
  the returned confidence is 0.9.
\<close>

theorem low_score_confidence_counterexample:
  "styles_loop example_classifier (extract_features example_pil example_rng 0)
       ''IMG_0042.png'' STYLES
     = Inr [(''warli'', 0), (''madhubani'', 0), (''pithora'', 0)] \<and>
   classify_image example_pil example_rng example_classifier [0] ''IMG_0042.png'' =
     Inr [(''predicted_style'', PyStr ''madhubani''),
          (''confidence_score'', PyFloat 0.9),
          (''style_scores'', PyScores [(''warli'', 0), (''madhubani'', 0), (''pithora'', 0)]),
          (''model_version'', PyStr ''dataset-comparison-v1''),
          (''dataset_counts'', PyCounts [(''warli'', 2), (''madhubani'', 5), (''pithora'', 3)])] \<and>
   (0.9::real) \<noteq> 0.75"
  by (simp add: ex_black ex_scores_black ex_classify_black)

subsection \<open>The scores of the main path and the predicted label\<close>

lemma similarities_loop_Inr:
  "similarities_loop u refs = Inr similarities \<Longrightarrow>
   \<exists>sims. map (\<lambda>rf. cosine_similarity u (rd_features rf)) refs = map Inr sims \<and>
      similarities = map (max 0) sims"
proof (induction refs arbitrary: similarities)
  case Nil
  then show ?case by simp
next
  case (Cons ref refs)
  from Cons.prems obtain sim rest where
    sim: "cosine_similarity u (rd_features ref) = Inr sim" and
    rest: "similarities_loop u refs = Inr rest" and
    eq: "similarities = max 0 sim # rest"
    by (auto split: sum.splits)
  from Cons.IH [OF rest] obtain sims where
    "map (\<lambda>rf. cosine_similarity u (rd_features rf)) refs = map Inr sims"
    "rest = map (max 0) sims" by blast
  then have "map (\<lambda>rf. cosine_similarity u (rd_features rf)) (ref # refs) = map Inr (sim # sims) \<and>
      similarities = map (max 0) (sim # sims)"
    using sim eq by simp
  then show ?case by blast
qed

lemma py_max_Cons: "py_max (x # xs) = Inr (Max (set (x # xs)))"
  by (simp add: py_max_def max_from_eq_Max)

lemma style_score_with_refs:
  assumes "reference_features self style = Some (ref # refs)"
    and "style_score self u f style = Inr v"
  shows "\<exists>sims. map (\<lambda>rf. cosine_similarity u (rd_features rf)) (ref # refs) = map Inr sims \<and>
     v = 0.7 * Max (set (map (max 0) sims)) + 0.3 * calculate_filename_similarity f style"
proof -
  from assms obtain similarities where
    loop: "similarities_loop u (ref # refs) = Inr similarities" and
    v: "(case (if similarities \<noteq> [] then py_max similarities else Inr 0.3) of
          Inl e \<Rightarrow> Inl e
        | Inr base_similarity \<Rightarrow>
            Inr ((base_similarity * 0.7) + (calculate_filename_similarity f style * 0.3))) = Inr v"
    by (auto simp: style_score_def Let_def split: sum.splits)
  from similarities_loop_Inr [OF loop] obtain sims where
    sims: "map (\<lambda>rf. cosine_similarity u (rd_features rf)) (ref # refs) = map Inr sims"
      "similarities = map (max 0) sims" by blast
  from sims(1) have "sims \<noteq> []" by auto
  then obtain x xs where "similarities = x # xs" using sims(2) by (cases sims) auto
  then have "py_max similarities = Inr (Max (set similarities))" by (simp add: py_max_Cons)
  with v \<open>similarities = x # xs\<close>
  have "v = Max (set similarities) * 0.7 + calculate_filename_similarity f style * 0.3"
    by simp
  then have "v = 0.7 * Max (set (map (max 0) sims)) + 0.3 * calculate_filename_similarity f style"
    using sims(2) by (simp add: mult.commute)
  with sims(1) show ?thesis by blast
qed

lemma style_score_without_refs:
  assumes "reference_features self style = None \<or> reference_features self style = Some []"
  shows "style_score self u f style = Inr (calculate_filename_similarity f style)"
  using assms by (auto simp: style_score_def)

text \<open>
  Claim C5, as the code has it. Whenever the main path of \<^verbatim>\<open>classify_image\<close> returns, the
  returned \<^verbatim>\<open>style_scores\<close> has the three styles as keys, and for every style with at least
  one reference sample its score is \<open>0.7 * base + 0.3 * filename_score\<close>, where \<open>base\<close> is
  the maximum (not the average) over the reference samples of that style of the cosine
  similarity to the query, each similarity clamped below at 0; a style without reference
  samples scores its filename score alone. The winning style is the first style whose
  score is largest. It is the predicted label, with confidence
  \<open>min 0.98 (score + 0.15)\<close>, when its score is at least 0.5; when its score is below 0.5
  the predicted label is the style with the largest count instead.
\<close>

theorem combined_scores_and_prediction:
  assumes "classify_try P R self image_data filename = Inr r"
  shows "\<exists>img style_scores best w pre post.
     Image_open P image_data = Some img \<and>
     result_style_scores r = Some style_scores \<and> map fst style_scores = STYLES \<and>
     (\<forall>style \<in> set STYLES. \<forall>ref refs. reference_features self style = Some (ref # refs) \<longrightarrow>
        (\<exists>sims. map (\<lambda>rf. cosine_similarity (extract_features P R img) (rd_features rf))
                  (ref # refs) = map Inr sims \<and>
           map_of style_scores style =
             Some (0.7 * Max (set (map (max 0) sims))
                   + 0.3 * calculate_filename_similarity filename style))) \<and>
     (\<forall>style \<in> set STYLES.
        reference_features self style = None \<or> reference_features self style = Some [] \<longrightarrow>
        map_of style_scores style = Some (calculate_filename_similarity filename style)) \<and>
     style_scores = pre @ (best, w) # post \<and>
     (\<forall>kv \<in> set pre. snd kv < w) \<and> (\<forall>kv \<in> set post. snd kv \<le> w) \<and>
     (0.5 \<le> w \<longrightarrow>
        predicted_style r = Some best \<and> confidence_score r = Some (min 0.98 (w + 0.15))) \<and>
     (w < 0.5 \<longrightarrow>
        (\<exists>k. max_key_by_value (style_counts self) = Inr k \<and> predicted_style r = Some k) \<and>
        confidence_score r = Some 0.9)"
proof -
  from assms obtain img style_scores best_style confidence best_style' confidence' where
    opened: "Image_open P image_data = Some img" and
    loop: "styles_loop self (extract_features P R img) filename STYLES = Inr style_scores" and
    mx: "max_key_by_value style_scores = Inr best_style" and
    get: "dict_get style_scores best_style = Inr confidence" and
    ov: "low_confidence_override self best_style confidence = Inr (best_style', confidence')" and
    r: "r = [(''predicted_style'', PyStr best_style'),
          (''confidence_score'', PyFloat (min 0.98 (confidence' + 0.15))),
          (''style_scores'', PyScores style_scores),
          (''model_version'', PyStr ''dataset-comparison-v1''),
          (''dataset_counts'', PyCounts (style_counts self))]"
    by (rule classify_try_Inr)
  define u where "u = extract_features P R img"
  have keys: "map fst style_scores = STYLES" using loop by (rule styles_loop_keys)
  have with_refs: "\<forall>style \<in> set STYLES. \<forall>ref refs.
      reference_features self style = Some (ref # refs) \<longrightarrow>
        (\<exists>sims. map (\<lambda>rf. cosine_similarity u (rd_features rf)) (ref # refs) = map Inr sims \<and>
           map_of style_scores style =
             Some (0.7 * Max (set (map (max 0) sims))
                   + 0.3 * calculate_filename_similarity filename style))"
  proof (intro ballI allI impI)
    fix style ref refs
    assume style: "style \<in> set STYLES" and
      refs: "reference_features self style = Some (ref # refs)"
    from styles_loop_lookup [OF loop distinct_STYLES style] obtain v where
      v: "map_of style_scores style = Some v" "style_score self u filename style = Inr v"
      unfolding u_def by blast
    from style_score_with_refs [OF refs v(2)] v(1)
    show "\<exists>sims. map (\<lambda>rf. cosine_similarity u (rd_features rf)) (ref # refs) = map Inr sims \<and>
           map_of style_scores style =
             Some (0.7 * Max (set (map (max 0) sims))
                   + 0.3 * calculate_filename_similarity filename style)"
      by auto
  qed
  have without_refs: "\<forall>style \<in> set STYLES.
        reference_features self style = None \<or> reference_features self style = Some [] \<longrightarrow>
        map_of style_scores style = Some (calculate_filename_similarity filename style)"
  proof (intro ballI impI)
    fix style
    assume style: "style \<in> set STYLES" and
      none: "reference_features self style = None \<or> reference_features self style = Some []"
    from styles_loop_lookup [OF loop distinct_STYLES style] obtain v where
      v: "map_of style_scores style = Some v" "style_score self u filename style = Inr v"
      unfolding u_def by blast
    with style_score_without_refs [OF none, of u filename]
    show "map_of style_scores style = Some (calculate_filename_similarity filename style)"
      by simp
  qed
  from low_scores_winner [OF loop] mx get obtain pre post where
    d: "style_scores = pre @ (best_style, confidence) # post"
      "\<forall>kv \<in> set pre. snd kv < confidence" "\<forall>kv \<in> set post. snd kv \<le> confidence"
    by auto
  have high: "0.5 \<le> confidence \<longrightarrow>
        predicted_style r = Some best_style \<and>
        confidence_score r = Some (min 0.98 (confidence + 0.15))"
    using low_confidence_override_cases [OF ov] by (auto simp: r)
  have low: "confidence < 0.5 \<longrightarrow>
        (\<exists>k. max_key_by_value (style_counts self) = Inr k \<and> predicted_style r = Some k) \<and>
        confidence_score r = Some 0.9"
    using low_confidence_override_cases [OF ov] by (auto simp: r)
  have scores: "result_style_scores r = Some style_scores" by (simp add: r)
  show ?thesis
    using opened scores keys with_refs without_refs d high low unfolding u_def by blast
qed

lemma ex_try_tribal:
  "classify_try example_pil example_rng example_classifier [0] ''tribal_story.png'' =
     Inr [(''predicted_style'', PyStr ''madhubani''),
          (''confidence_score'', PyFloat 0.9),
          (''style_scores'', PyScores [(''warli'', 0.21), (''madhubani'', 0), (''pithora'', 0)]),
          (''model_version'', PyStr ''dataset-comparison-v1''),
          (''dataset_counts'', PyCounts [(''warli'', 2), (''madhubani'', 5), (''pithora'', 3)])]"
  using ex_classify_tribal
  by (cases "classify_try example_pil example_rng example_classifier [0] ''tribal_story.png''")
     (simp_all add: classify_image_def classify_try_def ex_open ex_black classify_features_def
      ex_scores_tribal max_key_by_value_def dict_get_def low_confidence_override_def
      example_classifier_eq)

theorem combined_scores_and_prediction_witness:
  "classify_try example_pil example_rng example_classifier [0] ''tribal_story.png'' =
     Inr [(''predicted_style'', PyStr ''madhubani''),
          (''confidence_score'', PyFloat 0.9),
          (''style_scores'', PyScores [(''warli'', 0.21), (''madhubani'', 0), (''pithora'', 0)]),
          (''model_version'', PyStr ''dataset-comparison-v1''),
          (''dataset_counts'', PyCounts [(''warli'', 2), (''madhubani'', 5), (''pithora'', 3)])] \<and>
   (\<exists>sims. map (\<lambda>rf. cosine_similarity (extract_features example_pil example_rng 0) (rd_features rf))
             [\<lparr>rd_features = white_features, rd_filename = ''w1.jpg''\<rparr>] = map Inr sims \<and>
      (0.21::real) = 0.7 * Max (set (map (max 0) sims))
                     + 0.3 * calculate_filename_similarity ''tribal_story.png'' ''warli'')"
proof -
  have warli: "''warli'' \<in> set STYLES" by (simp add: STYLES_def)
  have refs: "reference_features example_classifier ''warli'' =
      Some [\<lparr>rd_features = white_features, rd_filename = ''w1.jpg''\<rparr>]"
    by (simp add: ex_refs)
  from combined_scores_and_prediction [OF ex_try_tribal] obtain img style_scores where
    img: "Image_open example_pil [0] = Some img" and
    sc: "result_style_scores [(''predicted_style'', PyStr ''madhubani''),
          (''confidence_score'', PyFloat 0.9),
          (''style_scores'', PyScores [(''warli'', 0.21), (''madhubani'', 0), (''pithora'', 0)]),
          (''model_version'', PyStr ''dataset-comparison-v1''),
          (''dataset_counts'', PyCounts [(''warli'', 2), (''madhubani'', 5), (''pithora'', 3)])]
        = Some style_scores" and
    all: "\<forall>style \<in> set STYLES. \<forall>ref refs.
        reference_features example_classifier style = Some (ref # refs) \<longrightarrow>
        (\<exists>sims. map (\<lambda>rf. cosine_similarity (extract_features example_pil example_rng img)
                    (rd_features rf)) (ref # refs) = map Inr sims \<and>
           map_of style_scores style =
             Some (0.7 * Max (set (map (max 0) sims))
                   + 0.3 * calculate_filename_similarity ''tribal_story.png'' style))"
    by blast
  from img have "img = 0" by (simp add: ex_open)
  from sc have "style_scores = [(''warli'', 0.21), (''madhubani'', 0), (''pithora'', 0)]"
    by simp
  with all warli refs \<open>img = 0\<close> show ?thesis
    using ex_try_tribal by fastforce
qed

text \<open>
  The claim as stated makes the predicted label the argmax of the scores. Here every style
  has a reference sample, warli has the strictly largest score, 0.21, and the predicted
  label is madhubani, the style with the largest count.
\<close>

theorem argmax_prediction_counterexample:
  "reference_features example_classifier ''warli'' =
     Some [\<lparr>rd_features = white_features, rd_filename = ''w1.jpg''\<rparr>] \<and>
   reference_features example_classifier ''madhubani'' =
     Some [\<lparr>rd_features = white_features, rd_filename = ''m1.jpg''\<rparr>] \<and>
   reference_features example_classifier ''pithora'' =
     Some [\<lparr>rd_features = white_features, rd_filename = ''p1.jpg''\<rparr>] \<and>
   classify_image example_pil example_rng example_classifier [0] ''tribal_story.png'' =
     Inr [(''predicted_style'', PyStr ''madhubani''),
          (''confidence_score'', PyFloat 0.9),
          (''style_scores'', PyScores [(''warli'', 0.21), (''madhubani'', 0), (''pithora'', 0)]),
          (''model_version'', PyStr ''dataset-comparison-v1''),
          (''dataset_counts'', PyCounts [(''warli'', 2), (''madhubani'', 5), (''pithora'', 3)])] \<and>
   (0::real) < 0.21"
  by (simp add: ex_refs ex_classify_tribal)

text \<open>
  The clamp \<^verbatim>\<open>max(0, sim)\<close> changes nothing on the vectors the extractor produces: their
  entries are never negative (the generator draws from the interval from 0 to 1), and
  then no cosine similarity is.
\<close>

lemma dot_nonneg:
  assumes "\<forall>x \<in> set xs. 0 \<le> x" "\<forall>y \<in> set ys. 0 \<le> y"
  shows "0 \<le> dot xs ys"
  unfolding dot_def
proof (rule sum_list_nonneg)
  fix p assume "p \<in> set (map2 (*) xs ys)"
  then obtain x y where "(x, y) \<in> set (zip xs ys)" "p = x * y" by auto
  then have "x \<in> set xs" "y \<in> set ys" by (auto dest: set_zip_leftD set_zip_rightD)
  with assms \<open>p = x * y\<close> show "0 \<le> p" by simp
qed

lemma normalize_row_nonneg:
  assumes "\<forall>x \<in> set xs. 0 \<le> x"
  shows "\<forall>x \<in> set (normalize_row xs). 0 \<le> x"
proof -
  have "0 \<le> l2_norm xs" using dot_nonneg [OF assms assms] by (simp add: l2_norm_def)
  then have "0 < (if l2_norm xs = 0 then 1 else l2_norm xs)" by simp
  with assms show ?thesis by (auto simp: normalize_row_def Let_def)
qed

lemma cosine_similarity_nonneg:
  assumes "\<forall>x \<in> set xs. 0 \<le> x" "\<forall>y \<in> set ys. 0 \<le> y"
    and "cosine_similarity xs ys = Inr s"
  shows "max 0 s = s"
proof -
  from assms(3) have "s = dot (normalize_row xs) (normalize_row ys)"
    by (simp add: cosine_similarity_def split: if_splits)
  then have "0 \<le> s"
    using dot_nonneg [OF normalize_row_nonneg [OF assms(1)] normalize_row_nonneg [OF assms(2)]]
    by simp
  then show ?thesis by simp
qed

lemma extract_features_nonneg:
  assumes "\<forall>x \<in> set (random_features R). 0 \<le> x"
  shows "\<forall>x \<in> set (extract_features P R img). 0 \<le> x"
  using assms by (auto simp: extract_features_def Let_def split: option.splits)

subsection \<open>The main path returns on well-formed features\<close>

lemma similarities_loop_returns:
  assumes "u \<noteq> []" "\<forall>ref \<in> set refs. length (rd_features ref) = length u"
  shows "\<exists>similarities. similarities_loop u refs = Inr similarities \<and>
     length similarities = length refs"
  using assms(2)
proof (induction refs)
  case Nil
  show ?case by simp
next
  case (Cons ref refs)
  then have "length (rd_features ref) = length u" by simp
  with assms(1) have "rd_features ref \<noteq> []" by auto
  with assms(1) \<open>length (rd_features ref) = length u\<close>
  obtain sim where "cosine_similarity u (rd_features ref) = Inr sim"
    by (simp add: cosine_similarity_def)
  moreover from Cons obtain similarities where
    "similarities_loop u refs = Inr similarities" "length similarities = length refs" by auto
  ultimately show ?case by simp
qed

lemma style_score_returns:
  assumes "u \<noteq> []"
    and "\<forall>refs. reference_features self style = Some refs \<longrightarrow>
           (\<forall>ref \<in> set refs. length (rd_features ref) = length u)"
  shows "\<exists>v. style_score self u f style = Inr v"
proof (cases "reference_features self style")
  case None
  then show ?thesis by (simp add: style_score_def)
next
  case (Some refs)
  show ?thesis
  proof (cases refs)
    case Nil
    with Some show ?thesis by (simp add: style_score_def)
  next
    case (Cons ref refs')
    from assms(2) Some have "\<forall>ref \<in> set refs. length (rd_features ref) = length u" by simp
    from similarities_loop_returns [OF assms(1) this] obtain similarities where
      s: "similarities_loop u refs = Inr similarities" "length similarities = length refs"
      by blast
    then obtain x xs where "similarities = x # xs" using Cons by (cases similarities) auto
    with s Some Cons show ?thesis by (simp add: style_score_def py_max_def Let_def)
  qed
qed

lemma styles_loop_returns:
  assumes "u \<noteq> []"
    and "\<forall>style \<in> set styles. \<forall>refs. reference_features self style = Some refs \<longrightarrow>
           (\<forall>ref \<in> set refs. length (rd_features ref) = length u)"
  shows "\<exists>d. styles_loop self u f styles = Inr d"
  using assms(2)
proof (induction styles)
  case Nil
  show ?case by simp
next
  case (Cons style styles)
  then have "\<forall>refs. reference_features self style = Some refs \<longrightarrow>
           (\<forall>ref \<in> set refs. length (rd_features ref) = length u)" by simp
  from style_score_returns [OF assms(1) this] obtain v where
    "style_score self u f style = Inr v" by blast
  moreover from Cons obtain d where "styles_loop self u f styles = Inr d" by auto
  ultimately show ?case by simp
qed

text \<open>
  The main path returns whenever the image opens, the query vector is not empty, every
  reference vector has the query's length (all are 50 long in the code) and
  \<^verbatim>\<open>style_counts\<close> is not empty.
\<close>

lemma classify_try_returns:
  assumes opened: "Image_open P image_data = Some img"
    and u: "extract_features P R img \<noteq> []"
    and refs: "\<forall>style \<in> set STYLES. \<forall>refs. reference_features self style = Some refs \<longrightarrow>
           (\<forall>ref \<in> set refs. length (rd_features ref) = length (extract_features P R img))"
    and counts: "style_counts self \<noteq> []"
  shows "\<exists>r. classify_try P R self image_data filename = Inr r"
proof -
  from styles_loop_returns [OF u refs] obtain d where
    d: "styles_loop self (extract_features P R img) filename STYLES = Inr d" by blast
  from low_scores_winner [OF d] obtain best w where
    b: "max_key_by_value d = Inr best" "dict_get d best = Inr w" by blast
  from max_key_by_value_first_max [OF counts] obtain k where
    k: "max_key_by_value (style_counts self) = Inr k" by blast
  have "low_confidence_override self best w =
      (if w < 0.5 then Inr (k, 0.75) else Inr (best, w))"
    using k by (simp add: low_confidence_override_def)
  then obtain p where "low_confidence_override self best w = Inr p"
    by (cases "w < 0.5") simp_all
  with d b have "\<exists>r. classify_features self (extract_features P R img) filename = Inr r"
    by (cases p) (simp add: classify_features_def)
  then show ?thesis using opened by (simp add: classify_try_def)
qed

section \<open>Properties of \<^verbatim>\<open>EmbeddingClassifier.classify\<close>\<close>

subsection \<open>The soft-max\<close>

lemma sum_list_map_divide:
  "sum_list (map (\<lambda>e. e / c) xs) = sum_list xs / (c::real)"
  by (induction xs) (simp_all add: add_divide_distrib)

lemma sum_list_pos_real:
  "xs \<noteq> [] \<Longrightarrow> \<forall>x \<in> set xs. 0 < (x::real) \<Longrightarrow> 0 < sum_list xs"
proof (induction xs)
  case Nil
  then show ?case by simp
next
  case (Cons x xs)
  show ?case
  proof (cases "xs = []")
    case True
    with Cons.prems show ?thesis by simp
  next
    case False
    with Cons have "0 < sum_list xs" by simp
    moreover have "0 < x" using Cons.prems by simp
    ultimately show ?thesis by simp
  qed
qed

lemma softmax_length: "length (softmax logits) = length logits"
  by (simp add: softmax_def Let_def)

lemma softmax_nth:
  "i < length logits \<Longrightarrow>
   softmax logits ! i =
     exp ((logits ! i - max_from (hd logits) (tl logits)) / 0.05)
       / sum_list (map (\<lambda>l. exp ((l - max_from (hd logits) (tl logits)) / 0.05)) logits)"
  by (simp add: softmax_def Let_def)

lemma softmax_denominator_pos:
  assumes "logits \<noteq> []"
  shows "0 < sum_list (map (\<lambda>l. exp ((l - m) / (0.05::real))) logits)"
  by (rule sum_list_pos_real) (use assms in auto)

lemma softmax_nonneg: "\<forall>p \<in> set (softmax logits). 0 \<le> p"
proof (cases "logits = []")
  case True
  then show ?thesis by (simp add: softmax_def)
next
  case False
  from softmax_denominator_pos [OF False]
  show ?thesis by (auto simp: softmax_def Let_def intro!: divide_nonneg_pos)
qed

lemma softmax_sum:
  assumes "logits \<noteq> []"
  shows "sum_list (softmax logits) = 1"
proof -
  define m where "m = max_from (hd logits) (tl logits)"
  define exps where "exps = map (\<lambda>l. exp ((l - m) / (0.05::real))) logits"
  have pos: "0 < sum_list exps" unfolding exps_def using assms by (rule softmax_denominator_pos)
  have "softmax logits = map (\<lambda>e. e / sum_list exps) exps"
    by (simp add: softmax_def Let_def exps_def m_def)
  then have "sum_list (softmax logits) = sum_list exps / sum_list exps"
    by (simp add: sum_list_map_divide)
  with pos show ?thesis by simp
qed

lemma softmax_mono:
  assumes "i < length logits" "j < length logits"
  shows "softmax logits ! i \<le> softmax logits ! j \<longleftrightarrow> logits ! i \<le> logits ! j"
proof -
  have "logits \<noteq> []" using assms by auto
  from softmax_denominator_pos [OF this, of "max_from (hd logits) (tl logits)"]
  show ?thesis using assms by (simp add: softmax_nth divide_le_cancel)
qed


subsection \<open>\<^verbatim>\<open>np.argmax\<close>\<close>

lemma zip_upt_nth: "j < length xs \<Longrightarrow> zip [0..<length xs] xs ! j = (j, xs ! j)"
  by simp

lemma zip_upt_Cons:
  "zip [0..<length (x # ys)] (x # ys) = (0, x) # zip [1..<length (x # ys)] ys"
proof -
  have "[0..<Suc (length ys)] = 0 # [Suc 0..<Suc (length ys)]"
    by (rule upt_conv_Cons) simp
  then have "zip [0..<Suc (length ys)] (x # ys) = (0, x) # zip [Suc 0..<Suc (length ys)] ys"
    by (simp only: zip_Cons_Cons)
  then show ?thesis by (simp only: length_Cons One_nat_def)
qed

lemma argmax_first_max:
  assumes "xs \<noteq> []"
  shows "argmax xs < length xs \<and>
     (\<forall>j < argmax xs. xs ! j < xs ! argmax xs) \<and>
     (\<forall>j < length xs. xs ! j \<le> xs ! argmax xs)"
proof -
  from assms obtain x ys where xs: "xs = x # ys" by (cases xs) auto
  define l where "l = zip [0..<length xs] xs"
  define r where "r = argmax_from (0, x) (zip [1..<length xs] ys)"
  have l_eq: "l = (0, x) # zip [1..<length xs] ys"
    unfolding l_def xs by (rule zip_upt_Cons)
  have len: "length l = length xs" by (simp add: l_def)
  have nth: "l ! j = (j, xs ! j)" if "j < length xs" for j
    using that unfolding l_def by (rule zip_upt_nth)
  from argmax_from_first_max [of "(0, x)" "zip [1..<length xs] ys"] obtain pre post where
    split: "l = pre @ r # post" and
    lt: "\<forall>kv \<in> set pre. snd kv < snd r" and
    le: "\<forall>kv \<in> set post. snd kv \<le> snd r"
    unfolding r_def l_eq by blast
  have "length l = length pre + Suc (length post)" unfolding split by simp
  then have pre_len: "length pre < length xs" using len by simp
  have "l ! length pre = r" unfolding split by simp
  then have r: "r = (length pre, xs ! length pre)" using nth [OF pre_len] by simp
  have "argmax xs = fst r" unfolding argmax_def r_def xs by simp
  then have am: "argmax xs = length pre" unfolding r by simp
  have before: "xs ! j < xs ! length pre" if "j < length pre" for j
  proof -
    have "pre ! j = l ! j" using that unfolding split by (simp add: nth_append)
    also have "\<dots> = (j, xs ! j)" using that pre_len by (simp add: nth)
    finally have "(j, xs ! j) \<in> set pre" using that nth_mem [of j pre] by simp
    with lt show ?thesis unfolding r by auto
  qed
  have all: "xs ! j \<le> xs ! length pre" if "j < length xs" for j
  proof -
    have "l ! j \<in> set l" using that len by simp
    then have "(j, xs ! j) \<in> set l" using nth [OF that] by simp
    then consider "(j, xs ! j) \<in> set pre" | "(j, xs ! j) = r" | "(j, xs ! j) \<in> set post"
      unfolding split by auto
    then show ?thesis
    proof cases
      case 1
      with lt show ?thesis unfolding r by auto
    next
      case 2
      then show ?thesis unfolding r by simp
    next
      case 3
      with le show ?thesis unfolding r by auto
    qed
  qed
  show ?thesis unfolding am using pre_len before all by simp
qed

subsection \<open>The centroid scores\<close>

lemma centroids_loop_length:
  "centroids_loop embeddings c2i labs = Inr cs \<Longrightarrow> length cs = length labs"
  by (induction labs arbitrary: cs) (auto split: sum.splits)

lemma vstack_Inr: "vstack rows = Inr stacked \<Longrightarrow> stacked = rows \<and> rows \<noteq> []"
  by (auto simp: vstack_def split: list.splits if_splits)

lemma matvec_Inr: "matvec cs emb = Inr logits \<Longrightarrow> logits = map (\<lambda>c. dot c emb) cs"
  by (auto simp: matvec_def split: if_splits)

lemma centroid_probs_Inr:
  assumes "centroid_probs self emb = Inr (labs, probs)"
  obtains logits where "labs = sorted_set (ec_labels self)" "probs = softmax logits"
    "length logits = length labs" "logits \<noteq> []"
proof -
  from assms obtain embeddings where e: "ec_embeddings self = Some embeddings"
    by (cases "ec_embeddings self") (simp_all add: centroid_probs_def)
  define labs0 where "labs0 = sorted_set (ec_labels self)"
  have step1: "(case centroids_loop embeddings (ec_class_to_indices self) labs0 of
             Inl e \<Rightarrow> Inl e
           | Inr centroids \<Rightarrow>
               (case vstack centroids of
                  Inl e \<Rightarrow> Inl e
                | Inr stacked \<Rightarrow>
                    (case matvec stacked emb of
                       Inl e \<Rightarrow> Inl e
                     | Inr logits \<Rightarrow> Inr (labs0, softmax logits)))) = Inr (labs, probs)"
    using assms e unfolding labs0_def by (simp add: centroid_probs_def Let_def)
  then obtain centroids where
    cl: "centroids_loop embeddings (ec_class_to_indices self) labs0 = Inr centroids"
    by (cases "centroids_loop embeddings (ec_class_to_indices self) labs0") simp_all
  with step1 obtain stacked where vs: "vstack centroids = Inr stacked"
    by (cases "vstack centroids") simp_all
  with step1 cl obtain logits where mv: "matvec stacked emb = Inr logits"
    by (cases "matvec stacked emb") simp_all
  with step1 cl vs have res: "labs = labs0" "probs = softmax logits" by simp_all
  from vstack_Inr [OF vs] matvec_Inr [OF mv] centroids_loop_length [OF cl]
  have "length logits = length labs" "logits \<noteq> []" using res by auto
  with res show ?thesis unfolding labs0_def by (rule that)
qed

lemma centroid_without_samples:
  assumes "map_of class_to_indices lab = None \<or> map_of class_to_indices lab = Some []"
  shows "centroid (row # rows) class_to_indices lab = Inr (replicate (length row) 0)"
  using assms by (auto simp: centroid_def zeros_like_def map_replicate_const)

lemma score_Inr:
  assumes "score E self emb = Inr r"
  obtains labs probs where "centroid_probs self emb = Inr (labs, probs)"
    "r = [(''predicted_style'', PyStr (labs ! argmax probs)),
          (''confidence_score'', PyFloat (probs ! argmax probs)),
          (''all_predictions'', PyScores (zip labs probs)),
          (''method'', PyStr (if TF_AVAILABLE E then ''mobilenetv2-embeddings-knn''
                              else ''cvhsv-embeddings-knn''))]"
  using assms by (auto simp: score_def Let_def split: sum.splits prod.splits)

text \<open>
  Claim C6. Whenever the centroid scoring of \<^verbatim>\<open>classify\<close> returns, the dict
  \<^verbatim>\<open>all_predictions\<close> has one entry per label of the index, in sorted order, its values are
  not negative and they sum to 1 (floats are exact reals here, so the sum is exactly 1).
  A label that has no index in \<^verbatim>\<open>class_to_indices\<close> gets the zero vector of the
  embeddings' length as its centroid, and computing it raises nothing.
\<close>

theorem centroid_scores_distribution:
  "(score E self emb = Inr r \<longrightarrow>
      (\<exists>d. all_predictions r = Some d \<and> map fst d = sorted_set (ec_labels self) \<and> d \<noteq> [] \<and>
         (\<forall>p \<in> set (map snd d). 0 \<le> p) \<and> sum_list (map snd d) = 1)) \<and>
   (map_of class_to_indices lab = None \<or> map_of class_to_indices lab = Some [] \<longrightarrow>
      centroid (row # rows) class_to_indices lab = Inr (replicate (length row) 0))"
proof (intro conjI impI)
  assume "score E self emb = Inr r"
  then obtain labs probs where
    cp: "centroid_probs self emb = Inr (labs, probs)" and
    r: "r = [(''predicted_style'', PyStr (labs ! argmax probs)),
          (''confidence_score'', PyFloat (probs ! argmax probs)),
          (''all_predictions'', PyScores (zip labs probs)),
          (''method'', PyStr (if TF_AVAILABLE E then ''mobilenetv2-embeddings-knn''
                              else ''cvhsv-embeddings-knn''))]"
    by (rule score_Inr)
  from cp obtain logits where
    l: "labs = sorted_set (ec_labels self)" "probs = softmax logits"
      "length logits = length labs" "logits \<noteq> []"
    by (rule centroid_probs_Inr)
  define d where "d = zip labs probs"
  have len: "length probs = length labs" using l by (simp add: softmax_length)
  have "all_predictions r = Some d" by (simp add: r d_def all_predictions_def)
  moreover have "map fst d = sorted_set (ec_labels self)" using len l(1) by (simp add: d_def)
  moreover have "map snd d = probs" using len by (simp add: d_def)
  moreover have "d \<noteq> []" using len l by (auto simp: d_def)
  moreover have "\<forall>p \<in> set probs. 0 \<le> p" unfolding l(2) by (rule softmax_nonneg)
  moreover have "sum_list probs = 1" unfolding l(2) using l(4) by (rule softmax_sum)
  ultimately show "\<exists>d. all_predictions r = Some d \<and> map fst d = sorted_set (ec_labels self) \<and>
      d \<noteq> [] \<and> (\<forall>p \<in> set (map snd d). 0 \<le> p) \<and> sum_list (map snd d) = 1"
    by (intro exI [of _ d]) simp
next
  assume "map_of class_to_indices lab = None \<or> map_of class_to_indices lab = Some []"
  then show "centroid (row # rows) class_to_indices lab = Inr (replicate (length row) 0)"
    by (rule centroid_without_samples)
qed

text \<open>
  Claim C7. Whenever the centroid scoring of \<^verbatim>\<open>classify\<close> returns, the predicted label and
  the confidence are an entry of \<^verbatim>\<open>all_predictions\<close>, no entry has a larger probability
  than the confidence, and every label whose probability equals the confidence is
  lexically at or above the predicted label: among labels tied at the maximum the
  lexically lowest is predicted.
\<close>

theorem centroid_prediction_argmax:
  assumes "score E self emb = Inr r"
  shows "\<exists>d label conf. all_predictions r = Some d \<and>
     predicted_style r = Some label \<and> confidence_score r = Some conf \<and>
     (label, conf) \<in> set d \<and>
     (\<forall>kv \<in> set d. snd kv \<le> conf) \<and>
     (\<forall>kv \<in> set d. snd kv = conf \<longrightarrow> label \<le> fst kv)"
proof -
  from assms obtain labs probs where
    cp: "centroid_probs self emb = Inr (labs, probs)" and
    r: "r = [(''predicted_style'', PyStr (labs ! argmax probs)),
          (''confidence_score'', PyFloat (probs ! argmax probs)),
          (''all_predictions'', PyScores (zip labs probs)),
          (''method'', PyStr (if TF_AVAILABLE E then ''mobilenetv2-embeddings-knn''
                              else ''cvhsv-embeddings-knn''))]"
    by (rule score_Inr)
  from cp obtain logits where
    l: "labs = sorted_set (ec_labels self)" "probs = softmax logits"
      "length logits = length labs" "logits \<noteq> []"
    by (rule centroid_probs_Inr)
  define i where "i = argmax probs"
  define d where "d = zip labs probs"
  have len: "length probs = length labs" using l by (simp add: softmax_length)
  have ne: "probs \<noteq> []" using l len by auto
  from argmax_first_max [OF ne] have
    i: "i < length probs" and
    before: "\<forall>j < i. probs ! j < probs ! i" and
    all: "\<forall>j < length probs. probs ! j \<le> probs ! i"
    unfolding i_def by auto
  have sorted: "sorted labs" unfolding l(1) sorted_set_def by simp
  have reads: "all_predictions r = Some d" "predicted_style r = Some (labs ! i)"
    "confidence_score r = Some (probs ! i)"
    by (simp_all add: r d_def i_def all_predictions_def predicted_style_def confidence_score_def)
  have mem: "(labs ! i, probs ! i) \<in> set d"
    using i len unfolding d_def by (auto simp: in_set_zip)
  have le: "\<forall>kv \<in> set d. snd kv \<le> probs ! i"
    using all len unfolding d_def by (auto simp: in_set_zip)
  have ties: "\<forall>kv \<in> set d. snd kv = probs ! i \<longrightarrow> labs ! i \<le> fst kv"
  proof (intro ballI impI)
    fix kv assume "kv \<in> set d" and tie: "snd kv = probs ! i"
    then obtain j where j: "j < length labs" "labs ! j = fst kv" "probs ! j = snd kv"
      using len unfolding d_def by (auto simp: in_set_zip)
    have "\<not> j < i" using before tie j by auto
    then have "i \<le> j" by simp
    then have "labs ! i \<le> labs ! j" using sorted j(1) by (simp add: sorted_nth_mono)
    then show "labs ! i \<le> fst kv" using j by simp
  qed
  show ?thesis using reads mem le ties by blast
qed

subsection \<open>The scoring returns on a well-formed index\<close>

lemma map_of_setdefault_append:
  "map_of (setdefault_append k v d) k' =
     (if k' = k then Some ((case map_of d k of None \<Rightarrow> [] | Some vs \<Rightarrow> vs) @ [v])
      else map_of d k')"
  by (induction d) auto

lemma map_of_fold_setdefault_append:
  "map_of (fold (\<lambda>(label, v) d. setdefault_append label v d) items d0) k =
     (if filter (\<lambda>p. fst p = k) items = [] then map_of d0 k
      else Some ((case map_of d0 k of None \<Rightarrow> [] | Some vs \<Rightarrow> vs)
                 @ map snd (filter (\<lambda>p. fst p = k) items)))"
proof (induction items arbitrary: d0)
  case Nil
  show ?case by simp
next
  case (Cons p items)
  obtain label v where p: "p = (label, v)" by (cases p)
  show ?case
    unfolding p using Cons.IH [of "setdefault_append label v d0"]
    by (auto simp: map_of_setdefault_append split: option.splits)
qed

lemma map_of_group_by_label:
  "map_of (group_by_label items) k =
     (if filter (\<lambda>p. fst p = k) items = [] then None
      else Some (map snd (filter (\<lambda>p. fst p = k) items)))"
  unfolding group_by_label_def by (simp add: map_of_fold_setdefault_append)

lemma class_indices_of_label:
  assumes "lab \<in> set labels"
  shows "\<exists>idxs. map_of (group_by_label (zip labels [0..<length labels])) lab = Some idxs \<and>
     idxs \<noteq> [] \<and> (\<forall>i \<in> set idxs. i < length labels)"
proof -
  define hits where "hits = filter (\<lambda>p. fst p = lab) (zip labels [0..<length labels])"
  from assms obtain i where "i < length labels" "labels ! i = lab"
    by (auto simp: in_set_conv_nth)
  then have "(lab, i) \<in> set (zip labels [0..<length labels])"
    by (auto simp: in_set_zip)
  then have "(lab, i) \<in> set hits" by (simp add: hits_def)
  then have ne: "hits \<noteq> []" by auto
  have "\<forall>j \<in> set (map snd hits). j < length labels"
    by (auto simp: hits_def dest: set_zip_rightD)
  with ne show ?thesis
    by (simp add: map_of_group_by_label hits_def [symmetric])
qed

lemma take_rows_in_range:
  "\<forall>i \<in> set idxs. i < length embeddings \<Longrightarrow>
   take_rows embeddings idxs = Inr (map (\<lambda>i. embeddings ! i) idxs)"
  by (induction idxs) auto

lemma centroid_returns:
  assumes "map_of c2i lab = Some idxs" "idxs \<noteq> []" "\<forall>i \<in> set idxs. i < length embeddings"
    and "\<forall>row \<in> set embeddings. length row = d"
  shows "\<exists>c. centroid embeddings c2i lab = Inr c \<and> length c = d"
proof -
  from assms(2) obtain i rest where idxs: "idxs = i # rest" by (cases idxs) auto
  have "i < length embeddings" using assms(3) idxs by simp
  then have "length (embeddings ! i) = d" using assms(4) by simp
  then have "length (mean_axis0 (map (\<lambda>i. embeddings ! i) idxs)) = d"
    by (simp add: mean_axis0_def idxs)
  then show ?thesis
    using assms(1,2) take_rows_in_range [OF assms(3)]
    by (simp add: centroid_def Let_def)
qed

lemma centroids_loop_returns:
  assumes "\<forall>lab \<in> set labs. \<exists>idxs. map_of c2i lab = Some idxs \<and> idxs \<noteq> [] \<and>
             (\<forall>i \<in> set idxs. i < length embeddings)"
    and "\<forall>row \<in> set embeddings. length row = d"
  shows "\<exists>cs. centroids_loop embeddings c2i labs = Inr cs \<and> length cs = length labs \<and>
     (\<forall>c \<in> set cs. length c = d)"
  using assms(1)
proof (induction labs)
  case Nil
  show ?case by simp
next
  case (Cons lab labs)
  then obtain idxs where "map_of c2i lab = Some idxs" "idxs \<noteq> []"
    "\<forall>i \<in> set idxs. i < length embeddings" by auto
  from centroid_returns [OF this assms(2)] obtain c where
    c: "centroid embeddings c2i lab = Inr c" "length c = d" by blast
  from Cons obtain cs where
    cs: "centroids_loop embeddings c2i labs = Inr cs" "length cs = length labs"
      "\<forall>c \<in> set cs. length c = d" by auto
  from c cs show ?case by simp
qed

text \<open>
  On a well-formed index (as many labels as rows, at least one, all rows of the length of
  the query, and \<^verbatim>\<open>class_to_indices\<close> as \<^verbatim>\<open>_rebuild_class_indices\<close> leaves it) the scoring
  returns: every label has an index, no centroid is the zero vector of the empty branch,
  and nothing raises.
\<close>

lemma score_returns:
  assumes emb: "ec_embeddings self = Some embeddings"
    and len: "length embeddings = length (ec_labels self)" "ec_labels self \<noteq> []"
    and rows: "\<forall>row \<in> set embeddings. length row = length emb"
    and c2i: "ec_class_to_indices self
               = group_by_label (zip (ec_labels self) [0..<length (ec_labels self)])"
  shows "\<exists>r. score E self emb = Inr r"
proof -
  define labs where "labs = sorted_set (ec_labels self)"
  have set_labs: "set labs = set (ec_labels self)" by (simp add: labs_def sorted_set_def)
  have "\<forall>lab \<in> set labs. \<exists>idxs. map_of (ec_class_to_indices self) lab = Some idxs \<and>
      idxs \<noteq> [] \<and> (\<forall>i \<in> set idxs. i < length embeddings)"
    unfolding c2i len(1) set_labs using class_indices_of_label by blast
  from centroids_loop_returns [OF this rows] obtain cs where
    cs: "centroids_loop embeddings (ec_class_to_indices self) labs = Inr cs"
      "length cs = length labs" "\<forall>c \<in> set cs. length c = length emb" by blast
  have "labs \<noteq> []" using set_labs len(2) by (metis set_empty)
  then have "cs \<noteq> []" using cs(2) by auto
  then obtain c cs' where cs_eq: "cs = c # cs'" by (cases cs) auto
  have vs: "vstack cs = Inr cs"
    using cs(3) unfolding cs_eq by (simp add: vstack_def list_all_iff)
  have mv: "matvec cs emb = Inr (map (\<lambda>c. dot c emb) cs)"
    using cs(3) by (simp add: matvec_def list_all_iff)
  have "centroid_probs self emb = Inr (labs, softmax (map (\<lambda>c. dot c emb) cs))"
    using emb cs(1) vs mv by (simp add: centroid_probs_def labs_def [symmetric])
  then show ?thesis by (simp add: score_def Let_def)
qed

subsection \<open>The centroid scoring at the concrete inputs\<close>

lemma sorted_set_example: "sorted_set [''warli'', ''madhubani''] = [''madhubani'', ''warli'']"
  by (simp add: sorted_set_def less_eq_char_def less_char_def)

lemma ex_centroids:
  "centroids_loop [[1, 0], [1, 0]] [(''warli'', [0]), (''madhubani'', [Suc 0])]
     [''madhubani'', ''warli'']
   = Inr [[1 / (1 + 1 / 10 ^ 9), 0], [1 / (1 + 1 / 10 ^ 9), 0]]"
  by (simp add: centroid_def mean_axis0_def l2_norm_def dot_def Let_def)

lemma ex_softmax: "softmax [a, a] = [1 / 2, 1 / 2]"
  by (simp add: softmax_def Let_def)

lemma ex_centroid_probs:
  "centroid_probs ec_built [1, 0] = Inr ([''madhubani'', ''warli''], [1 / 2, 1 / 2])"
  by (simp add: centroid_probs_def ec_built_def sorted_set_example ex_centroids vstack_def
      matvec_def dot_def ex_softmax del: centroids_loop.simps)

lemma ex_score:
  "score example_runtime ec_built [1, 0] =
     Inr [(''predicted_style'', PyStr ''madhubani''),
          (''confidence_score'', PyFloat (1 / 2)),
          (''all_predictions'', PyScores [(''madhubani'', 1 / 2), (''warli'', 1 / 2)]),
          (''method'', PyStr ''mobilenetv2-embeddings-knn'')]"
  by (simp add: score_def ex_centroid_probs argmax_def example_runtime_def)


theorem centroid_scores_distribution_witness:
  "score example_runtime ec_built [1, 0] =
     Inr [(''predicted_style'', PyStr ''madhubani''),
          (''confidence_score'', PyFloat (1 / 2)),
          (''all_predictions'', PyScores [(''madhubani'', 1 / 2), (''warli'', 1 / 2)]),
          (''method'', PyStr ''mobilenetv2-embeddings-knn'')] \<and>
   sum_list (map snd [(''madhubani'', 1 / 2 :: real), (''warli'', 1 / 2)]) = 1 \<and>
   map_of [(''warli'', [0::nat])] ''madhubani'' = None \<and>
   centroid ([1, 0] # []) [(''warli'', [0])] ''madhubani'' = Inr (replicate (length [1, 0 :: real]) 0)"
proof -
  define r where "r = [(''predicted_style'', PyStr ''madhubani''),
          (''confidence_score'', PyFloat (1 / 2)),
          (''all_predictions'', PyScores [(''madhubani'', 1 / 2), (''warli'', 1 / 2)]),
          (''method'', PyStr ''mobilenetv2-embeddings-knn'')]"
  have sc: "score example_runtime ec_built [1, 0] = Inr r" by (simp add: ex_score r_def)
  have none: "map_of [(''warli'', [0::nat])] ''madhubani'' = None" by simp
  have ap: "all_predictions r = Some [(''madhubani'', 1 / 2), (''warli'', 1 / 2)]"
    by (simp add: r_def all_predictions_def)
  from centroid_scores_distribution [of example_runtime ec_built "[1, 0]" r
      "[(''warli'', [0])]" "''madhubani''" "[1, 0]" "[]"] sc none ap
  have "sum_list (map snd [(''madhubani'', 1 / 2 :: real), (''warli'', 1 / 2)]) = 1"
    and "centroid ([1, 0] # []) [(''warli'', [0])] ''madhubani''
          = Inr (replicate (length [1, 0 :: real]) 0)"
    by auto
  with sc none show ?thesis unfolding r_def by blast
qed

theorem centroid_prediction_argmax_witness:
  "score example_runtime ec_built [1, 0] =
     Inr [(''predicted_style'', PyStr ''madhubani''),
          (''confidence_score'', PyFloat (1 / 2)),
          (''all_predictions'', PyScores [(''madhubani'', 1 / 2), (''warli'', 1 / 2)]),
          (''method'', PyStr ''mobilenetv2-embeddings-knn'')] \<and>
   ''madhubani'' \<le> ''warli''"
proof -
  define r where "r = [(''predicted_style'', PyStr ''madhubani''),
          (''confidence_score'', PyFloat (1 / 2)),
          (''all_predictions'', PyScores [(''madhubani'', 1 / 2), (''warli'', 1 / 2)]),
          (''method'', PyStr ''mobilenetv2-embeddings-knn'')]"
  have sc: "score example_runtime ec_built [1, 0] = Inr r" by (simp add: ex_score r_def)
  have reads: "all_predictions r = Some [(''madhubani'', 1 / 2), (''warli'', 1 / 2)]"
    "predicted_style r = Some ''madhubani''" "confidence_score r = Some (1 / 2)"
    by (simp_all add: r_def all_predictions_def predicted_style_def confidence_score_def)
  from centroid_prediction_argmax [OF sc] reads
  have "\<forall>kv \<in> set [(''madhubani'', 1 / 2 :: real), (''warli'', 1 / 2)].
      snd kv = 1 / 2 \<longrightarrow> ''madhubani'' \<le> fst kv"
    by auto
  then have "''madhubani'' \<le> ''warli''" by simp
  with sc show ?thesis unfolding r_def by blast
qed

section \<open>Properties of \<^verbatim>\<open>EmbeddingClassifier._load_or_build_index\<close>\<close>

lemma try_load_mismatch:
  assumes "index_file E W = Content data" "meta_file W = Content meta"
    and "meta_method meta \<noteq> Some (active_method E)"
  shows "\<exists>e stale. try_load_index E W self = (Some e, stale) \<and>
     ec_loaded stale = ec_loaded self \<and> ec_embeddings stale = Some (idx_embeddings data)"
  using assms by (cases "idx_labels data") (simp_all add: try_load_index_def Let_def)

lemma load_or_build_on_failed_load:
  assumes "index_file E W = Content data" "meta_file W = Content meta"
    and "try_load_index E W self = (Some e, stale)"
  shows "load_or_build_index E W self n =
     build_index E (W\<lparr>stdout := stdout W @ [LoadFailedRebuilding e]\<rparr>) stale n"
  using assms by (simp add: load_or_build_index_def exists_def)

lemma load_or_build_without_index:
  assumes "index_file E W = Missing"
  shows "load_or_build_index E W self n = build_index E W self n"
  using assms by (simp add: load_or_build_index_def exists_def)

text \<open>The four ways through the build.\<close>

lemma build_index_no_items:
  assumes "dataset_items W = []"
  shows "build_index E W self n = (Some RuntimeError, self, W\<lparr>stdout := stdout W @ [BuildingIndex]\<rparr>)"
  using assms by (simp add: build_index_def Let_def)

lemma build_index_no_embeddings:
  assumes "dataset_items W \<noteq> []" "classes_loop E n (group_by_label (dataset_items W)) = []"
  shows "build_index E W self n = (Some RuntimeError, self, W\<lparr>stdout := stdout W @ [BuildingIndex]\<rparr>)"
  using assms by (simp add: build_index_def Let_def)

lemma build_index_ragged:
  assumes "dataset_items W \<noteq> []" "classes_loop E n (group_by_label (dataset_items W)) \<noteq> []"
    and "vstack (map snd (classes_loop E n (group_by_label (dataset_items W)))) = Inl e"
  shows "build_index E W self n = (Some e, self, W\<lparr>stdout := stdout W @ [BuildingIndex]\<rparr>)"
  using assms by (simp add: build_index_def Let_def)

lemma build_index_built:
  assumes "dataset_items W \<noteq> []" "classes_loop E n (group_by_label (dataset_items W)) \<noteq> []"
    and "vstack (map snd (classes_loop E n (group_by_label (dataset_items W)))) = Inr stacked"
  shows "\<exists>W'. build_index E W self n =
     (None,
      \<lparr>ec_labels = map fst (classes_loop E n (group_by_label (dataset_items W))),
       ec_embeddings = Some (map snd (classes_loop E n (group_by_label (dataset_items W)))),
       ec_label_names =
         sorted_set (map fst (classes_loop E n (group_by_label (dataset_items W)))),
       ec_class_to_indices =
         group_by_label
           (zip (map fst (classes_loop E n (group_by_label (dataset_items W))))
              [0..<length (classes_loop E n (group_by_label (dataset_items W)))]),
       ec_loaded = True\<rparr>, W') \<and>
     meta_file W' =
       Content \<lparr>meta_label_names =
                  Some (sorted_set (map fst (classes_loop E n (group_by_label (dataset_items W))))),
                meta_count = Some (length (classes_loop E n (group_by_label (dataset_items W)))),
                meta_method = Some (active_method E)\<rparr> \<and>
     index_file E W' =
       Content \<lparr>idx_embeddings = map snd (classes_loop E n (group_by_label (dataset_items W))),
                idx_labels =
                  ObjectArray (map fst (classes_loop E n (group_by_label (dataset_items W))))\<rparr> \<and>
     stdout W' = stdout W @ [BuildingIndex, BuiltIndex]"
proof -
  have st: "stacked = map snd (classes_loop E n (group_by_label (dataset_items W)))"
    using vstack_Inr [OF assms(3)] by simp
  show ?thesis
    using assms unfolding st
    by (cases self)
       (simp add: build_index_def Let_def rebuild_class_indices_def write_index_file_def
          index_file_def)
qed


lemma build_index_cases:
  obtains (failed) e where
      "\<forall>W self. dataset_items W = items \<longrightarrow>
         build_index E W self n = (Some e, self, W\<lparr>stdout := stdout W @ [BuildingIndex]\<rparr>)"
  | (built) "items \<noteq> []" "classes_loop E n (group_by_label items) \<noteq> []"
      "vstack (map snd (classes_loop E n (group_by_label items)))
         = Inr (map snd (classes_loop E n (group_by_label items)))"
proof (cases "items = []")
  case True
  then have "\<forall>W self. dataset_items W = items \<longrightarrow>
      build_index E W self n
        = (Some RuntimeError, self, W\<lparr>stdout := stdout W @ [BuildingIndex]\<rparr>)"
    by (simp add: build_index_no_items)
  then show ?thesis by (rule failed)
next
  case items: False
  show ?thesis
  proof (cases "classes_loop E n (group_by_label items) = []")
    case True
    with items have "\<forall>W self. dataset_items W = items \<longrightarrow>
      build_index E W self n
        = (Some RuntimeError, self, W\<lparr>stdout := stdout W @ [BuildingIndex]\<rparr>)"
      by (simp add: build_index_no_embeddings)
    then show ?thesis by (rule failed)
  next
    case embs: False
    show ?thesis
    proof (cases "vstack (map snd (classes_loop E n (group_by_label items)))")
      case (Inl e)
      with items embs have "\<forall>W self. dataset_items W = items \<longrightarrow>
        build_index E W self n = (Some e, self, W\<lparr>stdout := stdout W @ [BuildingIndex]\<rparr>)"
        by (simp add: build_index_ragged)
      then show ?thesis by (rule failed)
    next
      case (Inr stacked)
      with vstack_Inr [OF Inr] items embs show ?thesis by (intro built) simp_all
    qed
  qed
qed

text \<open>
  The outcome of the build, and on success the whole state it leaves, depend on the
  dataset and the extractor only: not on the state before nor on any file of the index.
\<close>

lemma build_index_independent:
  assumes "dataset_items W = dataset_items W0"
  shows "fst (build_index E W self n) = fst (build_index E W0 self0 n) \<and>
     (fst (build_index E W self n) = None \<longrightarrow>
        fst (snd (build_index E W self n)) = fst (snd (build_index E W0 self0 n)))"
proof (cases rule: build_index_cases [of "dataset_items W" E n])
  case (failed e)
  then have "build_index E W self n = (Some e, self, W\<lparr>stdout := stdout W @ [BuildingIndex]\<rparr>)"
    "build_index E W0 self0 n = (Some e, self0, W0\<lparr>stdout := stdout W0 @ [BuildingIndex]\<rparr>)"
    using assms by simp_all
  then show ?thesis by simp
next
  case built
  from build_index_built [OF built, of self] obtain W' where
    a: "fst (build_index E W self n) = None" and
    b: "fst (snd (build_index E W self n)) =
      \<lparr>ec_labels = map fst (classes_loop E n (group_by_label (dataset_items W))),
       ec_embeddings = Some (map snd (classes_loop E n (group_by_label (dataset_items W)))),
       ec_label_names =
         sorted_set (map fst (classes_loop E n (group_by_label (dataset_items W)))),
       ec_class_to_indices =
         group_by_label
           (zip (map fst (classes_loop E n (group_by_label (dataset_items W))))
              [0..<length (classes_loop E n (group_by_label (dataset_items W)))]),
       ec_loaded = True\<rparr>"
    by auto
  from built have built0: "dataset_items W0 \<noteq> []"
    "classes_loop E n (group_by_label (dataset_items W0)) \<noteq> []"
    "vstack (map snd (classes_loop E n (group_by_label (dataset_items W0))))
         = Inr (map snd (classes_loop E n (group_by_label (dataset_items W0))))"
    using assms by simp_all
  from build_index_built [OF built0, of self0] obtain W0' where
    a0: "fst (build_index E W0 self0 n) = None" and
    b0: "fst (snd (build_index E W0 self0 n)) =
      \<lparr>ec_labels = map fst (classes_loop E n (group_by_label (dataset_items W0))),
       ec_embeddings = Some (map snd (classes_loop E n (group_by_label (dataset_items W0)))),
       ec_label_names =
         sorted_set (map fst (classes_loop E n (group_by_label (dataset_items W0)))),
       ec_class_to_indices =
         group_by_label
           (zip (map fst (classes_loop E n (group_by_label (dataset_items W0))))
              [0..<length (classes_loop E n (group_by_label (dataset_items W0)))]),
       ec_loaded = True\<rparr>"
    by auto
  show ?thesis unfolding a a0 b b0 assms by simp
qed

lemma build_index_keeps_loaded:
  "build_index E W self n = (Some e, self', W') \<Longrightarrow> self' = self"
  by (cases rule: build_index_cases [of "dataset_items W" E n])
     (auto dest: build_index_built [where self = self])

lemma build_index_stdout:
  "\<exists>rest. stdout (snd (snd (build_index E W self n))) = stdout W @ BuildingIndex # rest"
proof (cases rule: build_index_cases [of "dataset_items W" E n])
  case (failed e)
  then have "build_index E W self n = (Some e, self, W\<lparr>stdout := stdout W @ [BuildingIndex]\<rparr>)"
    by simp
  then show ?thesis by simp
next
  case built
  from build_index_built [OF built, of self] show ?thesis by auto
qed


lemma classify_result_independent:
  assumes err: "fst (load_or_build_index E W self 400) = fst (load_or_build_index E W0 self 400)"
    and st: "fst (load_or_build_index E W self 400) = None \<longrightarrow>
       fst (snd (load_or_build_index E W self 400))
         = fst (snd (load_or_build_index E W0 self 400))"
  shows "fst (classify E W self image_bytes) = fst (classify E W0 self image_bytes)"
proof -
  obtain err1 self1 W1 where L: "load_or_build_index E W self 400 = (err1, self1, W1)"
    by (cases "load_or_build_index E W self 400") auto
  obtain err2 self2 W2 where L0: "load_or_build_index E W0 self 400 = (err2, self2, W2)"
    by (cases "load_or_build_index E W0 self 400") auto
  from err L L0 have e: "err2 = err1" by simp
  show ?thesis
  proof (cases err1)
    case None
    with st L L0 have "self2 = self1" by simp
    with None e L L0 show ?thesis
      by (simp add: classify_def split: option.splits)
  next
    case (Some e1)
    with e L L0 show ?thesis by (simp add: classify_def split: option.splits)
  qed
qed



lemma fresh_vectors_cong:
  "dataset_items W2 = dataset_items W \<Longrightarrow> fresh_vectors E W2 n = fresh_vectors E W n"
  by (simp add: fresh_vectors_def)

lemma fresh_state_cong:
  "dataset_items W2 = dataset_items W \<Longrightarrow> fresh_state E W2 n = fresh_state E W n"
  by (simp add: fresh_state_def fresh_vectors_def)

lemma build_index_built_fresh:
  assumes "dataset_items W \<noteq> []" "classes_loop E n (group_by_label (dataset_items W)) \<noteq> []"
    and "vstack (map snd (classes_loop E n (group_by_label (dataset_items W)))) = Inr stacked"
  shows "\<exists>W'. build_index E W self n = (None, fresh_state E W n, W') \<and>
     meta_file W' =
       Content \<lparr>meta_label_names = Some (sorted_set (map fst (fresh_vectors E W n))),
                meta_count = Some (length (fresh_vectors E W n)),
                meta_method = Some (active_method E)\<rparr> \<and>
     index_file E W' =
       Content \<lparr>idx_embeddings = map snd (fresh_vectors E W n),
                idx_labels = ObjectArray (map fst (fresh_vectors E W n))\<rparr> \<and>
     stdout W' = stdout W @ [BuildingIndex, BuiltIndex]"
  unfolding fresh_state_def fresh_vectors_def by (rule build_index_built [OF assms])

text \<open>The two outcomes of the call when the persisted index carries another method's tag.\<close>

lemma load_or_build_mismatch_outcome:
  assumes idx: "index_file E W = Content data" and meta: "meta_file W = Content meta"
    and mismatch: "meta_method meta \<noteq> Some (active_method E)"
  shows "\<exists>e stale. try_load_index E W self = (Some e, stale) \<and>
     ec_loaded stale = ec_loaded self \<and>
     ((\<exists>e'. load_or_build_index E W self n =
              (Some e', stale,
               W\<lparr>stdout := stdout W @ [LoadFailedRebuilding e, BuildingIndex]\<rparr>) \<and>
            (\<forall>W2 s2. dataset_items W2 = dataset_items W \<longrightarrow>
               fst (build_index E W2 s2 n) = Some e')) \<or>
      (\<exists>W'. load_or_build_index E W self n = (None, fresh_state E W n, W') \<and>
         index_file E W' =
           Content \<lparr>idx_embeddings = map snd (fresh_vectors E W n),
                    idx_labels = ObjectArray (map fst (fresh_vectors E W n))\<rparr> \<and>
         meta_file W' =
           Content \<lparr>meta_label_names = Some (sorted_set (map fst (fresh_vectors E W n))),
                    meta_count = Some (length (fresh_vectors E W n)),
                    meta_method = Some (active_method E)\<rparr> \<and>
         stdout W' = stdout W @ [LoadFailedRebuilding e, BuildingIndex, BuiltIndex]))"
proof -
  from try_load_mismatch [OF idx meta mismatch, of self] obtain e stale where
    tl: "try_load_index E W self = (Some e, stale)" and
    loaded: "ec_loaded stale = ec_loaded self" by blast
  define W1 where "W1 = W\<lparr>stdout := stdout W @ [LoadFailedRebuilding e]\<rparr>"
  have lb: "load_or_build_index E W self n = build_index E W1 stale n"
    unfolding W1_def using idx meta tl by (rule load_or_build_on_failed_load)
  have items1: "dataset_items W1 = dataset_items W" by (simp add: W1_def)
  have out1: "stdout W1 = stdout W @ [LoadFailedRebuilding e]" by (simp add: W1_def)
  have fv: "fresh_vectors E W1 n = fresh_vectors E W n" using items1 by (rule fresh_vectors_cong)
  have fs: "fresh_state E W1 n = fresh_state E W n" using items1 by (rule fresh_state_cong)
  show ?thesis
  proof (cases rule: build_index_cases [of "dataset_items W1" E n])
    case (failed e')
    then have "build_index E W1 stale n
        = (Some e', stale, W1\<lparr>stdout := stdout W1 @ [BuildingIndex]\<rparr>)" by simp
    moreover have "W1\<lparr>stdout := stdout W1 @ [BuildingIndex]\<rparr>
        = W\<lparr>stdout := stdout W @ [LoadFailedRebuilding e, BuildingIndex]\<rparr>"
      by (simp add: W1_def)
    ultimately have a: "load_or_build_index E W self n =
        (Some e', stale, W\<lparr>stdout := stdout W @ [LoadFailedRebuilding e, BuildingIndex]\<rparr>)"
      unfolding lb by simp
    have b: "\<forall>W2 s2. dataset_items W2 = dataset_items W \<longrightarrow>
               fst (build_index E W2 s2 n) = Some e'"
      using failed items1 by simp
    show ?thesis
      apply (rule exI [of _ e], rule exI [of _ stale])
      apply (intro conjI disjI1)
        apply (rule tl)
       apply (rule loaded)
      apply (rule exI [of _ e'])
      apply (intro conjI)
       apply (rule a)
      apply (rule b)
      done
  next
    case built
    from build_index_built_fresh [OF built, of stale] obtain W' where
      b1: "build_index E W1 stale n = (None, fresh_state E W1 n, W')" and
      b2: "meta_file W' =
       Content \<lparr>meta_label_names = Some (sorted_set (map fst (fresh_vectors E W1 n))),
                meta_count = Some (length (fresh_vectors E W1 n)),
                meta_method = Some (active_method E)\<rparr>" and
      b3: "index_file E W' =
       Content \<lparr>idx_embeddings = map snd (fresh_vectors E W1 n),
                idx_labels = ObjectArray (map fst (fresh_vectors E W1 n))\<rparr>" and
      b4: "stdout W' = stdout W1 @ [BuildingIndex, BuiltIndex]"
      by blast
    have c4: "stdout W' = stdout W @ [LoadFailedRebuilding e, BuildingIndex, BuiltIndex]"
      unfolding b4 out1 by simp
    show ?thesis
      apply (rule exI [of _ e], rule exI [of _ stale])
      apply (intro conjI disjI2)
        apply (rule tl)
       apply (rule loaded)
      apply (rule exI [of _ W'])
      apply (intro conjI)
         apply (simp only: lb b1 fs)
        apply (simp only: b3 fv)
       apply (simp only: b2 fv)
      apply (rule c4)
      done
  qed
qed


text \<open>
  An index file this code has written is never read back: its label array is an object
  array, so the next load raises and the index is built again.
\<close>

lemma self_written_index_never_reloads:
  assumes "index_file E W = Content \<lparr>idx_embeddings = vectors, idx_labels = ObjectArray labels\<rparr>"
    and "meta_file W = Content meta"
  shows "load_or_build_index E W self n =
     build_index E (W\<lparr>stdout := stdout W @ [LoadFailedRebuilding ValueError]\<rparr>)
       (self\<lparr>ec_embeddings := Some vectors\<rparr>) n"
proof -
  have "try_load_index E W self = (Some ValueError, self\<lparr>ec_embeddings := Some vectors\<rparr>)"
    using assms(1) by (simp add: try_load_index_def Let_def)
  with assms show ?thesis by (rule load_or_build_on_failed_load)
qed

text \<open>
  With a mismatched index on disk, an object that is not loaded either raises in
  \<^verbatim>\<open>classify\<close> or scores with the state the build has just computed.
\<close>

lemma classify_not_loaded_mismatch:
  assumes idx: "index_file E W = Content data" and meta: "meta_file W = Content meta"
    and mismatch: "meta_method meta \<noteq> Some (active_method E)"
    and not_loaded: "\<not> ec_loaded self"
  shows "(\<exists>e'. fst (classify E W self image_bytes) = Inl e') \<or>
     (\<exists>img emb. pil_open E image_bytes = Some img \<and> embed_image E img = Some emb \<and>
        fst (classify E W self image_bytes) = score E (fresh_state E W 400) emb)"
proof (cases "\<not> TF_AVAILABLE E \<and> \<not> CV2_AVAILABLE E")
  case True
  then have "fst (classify E W self image_bytes) = Inl RuntimeError"
    by (auto simp: classify_def)
  then show ?thesis by blast
next
  case avail: False
  from load_or_build_mismatch_outcome [OF idx meta mismatch, of self 400]
  consider (failed) e' s' W' where "load_or_build_index E W self 400 = (Some e', s', W')"
    | (built) W' where "load_or_build_index E W self 400 = (None, fresh_state E W 400, W')"
    by blast
  then show ?thesis
  proof cases
    case failed
    then have "fst (classify E W self image_bytes) = Inl e'"
      using avail not_loaded by (auto simp: classify_def)
    then show ?thesis by blast
  next
    case built
    show ?thesis
    proof (cases "pil_open E image_bytes")
      case None
      then have "fst (classify E W self image_bytes) = Inl UnidentifiedImageError"
        using avail not_loaded built by (auto simp: classify_def)
      then show ?thesis by blast
    next
      case (Some img)
      show ?thesis
      proof (cases "embed_image E img")
        case None
        then have "fst (classify E W self image_bytes) = Inl ValueError"
          using avail not_loaded built Some by (auto simp: classify_def)
        then show ?thesis by blast
      next
        case (Some emb)
        then have "fst (classify E W self image_bytes) = score E (fresh_state E W 400) emb"
          using avail not_loaded built \<open>pil_open E image_bytes = Some img\<close>
          by (auto simp: classify_def)
        with Some \<open>pil_open E image_bytes = Some img\<close> show ?thesis by blast
      qed
    qed
  qed
qed

text \<open>The same for the object \<^verbatim>\<open>__init__\<close> leaves, whether its build succeeded or failed.\<close>

lemma classify_after_init_mismatch:
  assumes idx: "index_file E W = Content data" and meta: "meta_file W = Content meta"
    and mismatch: "meta_method meta \<noteq> Some (active_method E)"
  shows "(\<exists>e'. fst (classify E (snd (ec_init E W)) (fst (ec_init E W)) image_bytes) = Inl e') \<or>
     (\<exists>img emb. pil_open E image_bytes = Some img \<and> embed_image E img = Some emb \<and>
        fst (classify E (snd (ec_init E W)) (fst (ec_init E W)) image_bytes)
          = score E (fresh_state E W 400) emb)"
proof -
  from load_or_build_mismatch_outcome [OF idx meta mismatch, of ec_initial 400]
  obtain e stale where
    loaded: "ec_loaded stale = ec_loaded ec_initial" and
    out: "(\<exists>e'. load_or_build_index E W ec_initial 400 =
              (Some e', stale,
               W\<lparr>stdout := stdout W @ [LoadFailedRebuilding e, BuildingIndex]\<rparr>)) \<or>
      (\<exists>W'. load_or_build_index E W ec_initial 400 = (None, fresh_state E W 400, W'))"
    by blast
  from out show ?thesis
  proof
    assume "\<exists>e'. load_or_build_index E W ec_initial 400 =
              (Some e', stale,
               W\<lparr>stdout := stdout W @ [LoadFailedRebuilding e, BuildingIndex]\<rparr>)"
    then obtain e' where lb: "load_or_build_index E W ec_initial 400 =
              (Some e', stale,
               W\<lparr>stdout := stdout W @ [LoadFailedRebuilding e, BuildingIndex]\<rparr>)" by blast
    define W0 where "W0 = W\<lparr>stdout := stdout W @ [LoadFailedRebuilding e, BuildingIndex]
                               @ [LoadOrBuildFailed e']\<rparr>"
    have init: "ec_init E W = (stale, W0)" by (simp add: ec_init_def lb W0_def)
    have idx0: "index_file E W0 = Content data"
      using idx by (auto simp: W0_def index_file_def split: if_splits)
    have meta0: "meta_file W0 = Content meta" using meta by (simp add: W0_def)
    have nl: "\<not> ec_loaded stale" using loaded by (simp add: ec_initial_def)
    have "dataset_items W0 = dataset_items W" by (simp add: W0_def)
    then have fs: "fresh_state E W0 400 = fresh_state E W 400" by (rule fresh_state_cong)
    from classify_not_loaded_mismatch [OF idx0 meta0 mismatch nl, of image_bytes]
    show ?thesis unfolding init fs by simp
  next
    assume "\<exists>W'. load_or_build_index E W ec_initial 400 = (None, fresh_state E W 400, W')"
    then obtain W' where lb: "load_or_build_index E W ec_initial 400
        = (None, fresh_state E W 400, W')" by blast
    have init: "ec_init E W = (fresh_state E W 400, W')" by (simp add: ec_init_def lb)
    have ld: "ec_loaded (fresh_state E W 400)" "ec_embeddings (fresh_state E W 400) \<noteq> None"
      by (simp_all add: fresh_state_def)
    show ?thesis
    proof (cases "\<not> TF_AVAILABLE E \<and> \<not> CV2_AVAILABLE E")
      case True
      then have "fst (classify E W' (fresh_state E W 400) image_bytes) = Inl RuntimeError"
        by (auto simp: classify_def)
      then show ?thesis unfolding init by simp
    next
      case avail: False
      show ?thesis
      proof (cases "pil_open E image_bytes")
        case None
        then have "fst (classify E W' (fresh_state E W 400) image_bytes)
            = Inl UnidentifiedImageError"
          using avail ld by (auto simp: classify_def)
        then show ?thesis unfolding init by simp
      next
        case (Some img)
        show ?thesis
        proof (cases "embed_image E img")
          case None
          then have "fst (classify E W' (fresh_state E W 400) image_bytes) = Inl ValueError"
            using avail ld Some by (auto simp: classify_def)
          then show ?thesis unfolding init by simp
        next
          case (Some emb)
          then have "fst (classify E W' (fresh_state E W 400) image_bytes)
              = score E (fresh_state E W 400) emb"
            using avail ld \<open>pil_open E image_bytes = Some img\<close> by (auto simp: classify_def)
          with Some \<open>pil_open E image_bytes = Some img\<close> show ?thesis
            unfolding init by simp
        qed
      qed
    qed
  qed
qed


text \<open>
  Claim C3. Let the persisted index and its metadata exist and let the metadata's method
  tag differ from the active method (or be absent). Then reading the index fails inside
  \<^verbatim>\<open>_load_or_build_index\<close>, the failure is printed and the build runs: the messages of
  the call start with the failed load followed by the start of the build. When the call
  returns, the object is in the state the build computes from the dataset with the active
  extractor, the index file has been overwritten with these vectors and labels, and the
  metadata carries the active method. When the call raises, the object is not marked
  loaded and both files are as they were. The persisted vectors enter no score: an object
  that is not loaded, and likewise the object \<^verbatim>\<open>__init__\<close> leaves, either raises in
  \<^verbatim>\<open>classify\<close> or scores with the freshly built state; and what \<^verbatim>\<open>classify\<close> returns or
  raises is what it would return or raise if no index file were on disk at all.
\<close>

theorem method_mismatch_rebuilds:
  assumes idx: "index_file E W = Content data" and meta: "meta_file W = Content meta"
    and mismatch: "meta_method meta \<noteq> Some (active_method E)"
  shows "\<exists>e stale.
     try_load_index E W self = (Some e, stale) \<and>
     load_or_build_index E W self n =
       build_index E (W\<lparr>stdout := stdout W @ [LoadFailedRebuilding e]\<rparr>) stale n \<and>
     (\<exists>rest. stdout (snd (snd (load_or_build_index E W self n)))
               = stdout W @ LoadFailedRebuilding e # BuildingIndex # rest) \<and>
     (\<forall>self' W'. load_or_build_index E W self n = (None, self', W') \<longrightarrow>
        self' = fresh_state E W n \<and>
        index_file E W' =
          Content \<lparr>idx_embeddings = map snd (fresh_vectors E W n),
                   idx_labels = ObjectArray (map fst (fresh_vectors E W n))\<rparr> \<and>
        meta_file W' =
          Content \<lparr>meta_label_names = Some (sorted_set (map fst (fresh_vectors E W n))),
                   meta_count = Some (length (fresh_vectors E W n)),
                   meta_method = Some (active_method E)\<rparr>) \<and>
     (\<forall>e' self' W'. load_or_build_index E W self n = (Some e', self', W') \<longrightarrow>
        self' = stale \<and> ec_loaded self' = ec_loaded self \<and>
        index_file E W' = index_file E W \<and> meta_file W' = meta_file W) \<and>
     (\<not> ec_loaded self \<longrightarrow>
        (\<exists>e'. fst (classify E W self image_bytes) = Inl e') \<or>
        (\<exists>img emb. pil_open E image_bytes = Some img \<and> embed_image E img = Some emb \<and>
           fst (classify E W self image_bytes) = score E (fresh_state E W 400) emb)) \<and>
     ((\<exists>e'. fst (classify E (snd (ec_init E W)) (fst (ec_init E W)) image_bytes) = Inl e') \<or>
      (\<exists>img emb. pil_open E image_bytes = Some img \<and> embed_image E img = Some emb \<and>
         fst (classify E (snd (ec_init E W)) (fst (ec_init E W)) image_bytes)
           = score E (fresh_state E W 400) emb)) \<and>
     fst (classify E W self image_bytes) =
       fst (classify E (W\<lparr>index_file_tf := Missing, index_file_cv := Missing\<rparr>) self image_bytes)"
proof -
  from load_or_build_mismatch_outcome [OF idx meta mismatch, of self n]
  obtain e stale where
    tl: "try_load_index E W self = (Some e, stale)" and
    loaded: "ec_loaded stale = ec_loaded self" and
    out: "(\<exists>e'. load_or_build_index E W self n =
              (Some e', stale,
               W\<lparr>stdout := stdout W @ [LoadFailedRebuilding e, BuildingIndex]\<rparr>)) \<or>
      (\<exists>W'. load_or_build_index E W self n = (None, fresh_state E W n, W') \<and>
         index_file E W' =
           Content \<lparr>idx_embeddings = map snd (fresh_vectors E W n),
                    idx_labels = ObjectArray (map fst (fresh_vectors E W n))\<rparr> \<and>
         meta_file W' =
           Content \<lparr>meta_label_names = Some (sorted_set (map fst (fresh_vectors E W n))),
                    meta_count = Some (length (fresh_vectors E W n)),
                    meta_method = Some (active_method E)\<rparr> \<and>
         stdout W' = stdout W @ [LoadFailedRebuilding e, BuildingIndex, BuiltIndex])"
    by blast
  define W1 where "W1 = W\<lparr>stdout := stdout W @ [LoadFailedRebuilding e]\<rparr>"
  define W0 where "W0 = W\<lparr>index_file_tf := Missing, index_file_cv := Missing\<rparr>"
  have lb: "load_or_build_index E W self m = build_index E W1 stale m" for m
    unfolding W1_def using idx meta tl by (rule load_or_build_on_failed_load)
  have log: "\<exists>rest. stdout (snd (snd (load_or_build_index E W self n)))
               = stdout W @ LoadFailedRebuilding e # BuildingIndex # rest"
    using out by auto
  have ok: "\<forall>self' W'. load_or_build_index E W self n = (None, self', W') \<longrightarrow>
        self' = fresh_state E W n \<and>
        index_file E W' =
          Content \<lparr>idx_embeddings = map snd (fresh_vectors E W n),
                   idx_labels = ObjectArray (map fst (fresh_vectors E W n))\<rparr> \<and>
        meta_file W' =
          Content \<lparr>meta_label_names = Some (sorted_set (map fst (fresh_vectors E W n))),
                   meta_count = Some (length (fresh_vectors E W n)),
                   meta_method = Some (active_method E)\<rparr>"
    using out by auto
  have bad: "\<forall>e' self' W'. load_or_build_index E W self n = (Some e', self', W') \<longrightarrow>
        self' = stale \<and> ec_loaded self' = ec_loaded self \<and>
        index_file E W' = index_file E W \<and> meta_file W' = meta_file W"
    using out loaded by (auto simp: index_file_def)
  have guard: "\<not> ec_loaded self \<longrightarrow>
        (\<exists>e'. fst (classify E W self image_bytes) = Inl e') \<or>
        (\<exists>img emb. pil_open E image_bytes = Some img \<and> embed_image E img = Some emb \<and>
           fst (classify E W self image_bytes) = score E (fresh_state E W 400) emb)"
    using classify_not_loaded_mismatch [OF idx meta mismatch, of self image_bytes] by blast
  have init: "(\<exists>e'. fst (classify E (snd (ec_init E W)) (fst (ec_init E W)) image_bytes) = Inl e') \<or>
      (\<exists>img emb. pil_open E image_bytes = Some img \<and> embed_image E img = Some emb \<and>
         fst (classify E (snd (ec_init E W)) (fst (ec_init E W)) image_bytes)
           = score E (fresh_state E W 400) emb)"
    using idx meta mismatch by (rule classify_after_init_mismatch)
  have "index_file E W0 = Missing" by (simp add: W0_def index_file_def)
  then have lb0: "load_or_build_index E W0 self 400 = build_index E W0 self 400"
    by (rule load_or_build_without_index)
  have "dataset_items W1 = dataset_items W0" by (simp add: W1_def W0_def)
  from build_index_independent [OF this, of E stale 400 self]
  have same: "fst (classify E W self image_bytes) = fst (classify E W0 self image_bytes)"
    by (intro classify_result_independent) (simp_all add: lb lb0)
  show ?thesis
    apply (rule exI [of _ e], rule exI [of _ stale])
    apply (intro conjI)
           apply (rule tl)
          apply (rule lb [of n, unfolded W1_def])
         apply (rule log)
        apply (rule ok)
       apply (rule bad)
      apply (rule guard)
     apply (rule init)
    apply (rule same [unfolded W0_def])
    done
qed

subsection \<open>The index code at the concrete inputs\<close>

lemma ex_classes_loop:
  "classes_loop example_runtime 400 (group_by_label [(''warli'', [0]), (''madhubani'', [0])])
     = [(''warli'', [1, 0]), (''madhubani'', [1, 0])]"
  by (simp add: group_by_label_def embed_file_def embed_image_def example_runtime_def)

lemma ex_build:
  assumes "dataset_items W = [(''warli'', [0]), (''madhubani'', [0])]"
  shows "\<exists>W'. build_index example_runtime W self 400 = (None, ec_built, W')"
proof -
  have a: "dataset_items W \<noteq> []" using assms by simp
  have b: "classes_loop example_runtime 400 (group_by_label (dataset_items W)) \<noteq> []"
    unfolding assms ex_classes_loop by simp
  have c: "vstack (map snd (classes_loop example_runtime 400 (group_by_label (dataset_items W))))
      = Inr [[1, 0], [1, 0]]"
    unfolding assms ex_classes_loop by (simp add: vstack_def)
  from build_index_built [OF a b c, of self] show ?thesis
    unfolding assms ex_classes_loop
    by (auto simp: ec_built_def sorted_set_example group_by_label_def)
qed

lemma ex_classify_after_build:
  assumes "load_or_build_index example_runtime W ec_initial 400 = (None, ec_built, W')"
  shows "fst (classify example_runtime W ec_initial [0]) =
     Inr [(''predicted_style'', PyStr ''madhubani''),
          (''confidence_score'', PyFloat (1 / 2)),
          (''all_predictions'', PyScores [(''madhubani'', 1 / 2), (''warli'', 1 / 2)]),
          (''method'', PyStr ''mobilenetv2-embeddings-knn'')]"
proof -
  have "\<not> ec_loaded ec_initial" by (simp add: ec_initial_def)
  moreover have "TF_AVAILABLE example_runtime" by (simp add: example_runtime_def)
  moreover have "pil_open example_runtime [0] = Some 0" by (simp add: example_runtime_def)
  moreover have "embed_image example_runtime 0 = Some [1, 0]"
    by (simp add: embed_image_def example_runtime_def)
  ultimately show ?thesis using assms by (simp add: classify_def ex_score)
qed

theorem method_mismatch_rebuilds_witness:
  "index_file example_runtime example_world
     = Content \<lparr>idx_embeddings = [[0, 1]], idx_labels = StringArray [''pithora'']\<rparr> \<and>
   meta_file example_world
     = Content \<lparr>meta_label_names = Some [''pithora''], meta_count = Some 1,
                meta_method = Some ''cvhsv''\<rparr> \<and>
   active_method example_runtime = ''mobilenetv2'' \<and>
   fst (load_or_build_index example_runtime example_world ec_initial 400) = None \<and>
   fst (snd (load_or_build_index example_runtime example_world ec_initial 400)) = ec_built \<and>
   fst (classify example_runtime example_world ec_initial [0]) =
     Inr [(''predicted_style'', PyStr ''madhubani''),
          (''confidence_score'', PyFloat (1 / 2)),
          (''all_predictions'', PyScores [(''madhubani'', 1 / 2), (''warli'', 1 / 2)]),
          (''method'', PyStr ''mobilenetv2-embeddings-knn'')]"
proof -
  have idx: "index_file example_runtime example_world
     = Content \<lparr>idx_embeddings = [[0, 1]], idx_labels = StringArray [''pithora'']\<rparr>"
    by (simp add: index_file_def example_runtime_def example_world_def)
  have meta: "meta_file example_world
     = Content \<lparr>meta_label_names = Some [''pithora''], meta_count = Some 1,
                meta_method = Some ''cvhsv''\<rparr>"
    by (simp add: example_world_def)
  have act: "active_method example_runtime = ''mobilenetv2''"
    by (simp add: active_method_def example_runtime_def)
  have mismatch: "meta_method \<lparr>meta_label_names = Some [''pithora''], meta_count = Some 1,
                meta_method = Some ''cvhsv''\<rparr> \<noteq> Some (active_method example_runtime)"
    by (simp add: act)
  define W0 where "W0 = example_world\<lparr>index_file_tf := Missing, index_file_cv := Missing\<rparr>"
  from method_mismatch_rebuilds [OF idx meta mismatch, of ec_initial 400 "[0]"]
  obtain e stale where
    lb: "load_or_build_index example_runtime example_world ec_initial 400 =
       build_index example_runtime
         (example_world\<lparr>stdout := stdout example_world @ [LoadFailedRebuilding e]\<rparr>) stale 400"
    and cl: "fst (classify example_runtime example_world ec_initial [0]) =
       fst (classify example_runtime W0 ec_initial [0])"
    unfolding W0_def by blast
  have "dataset_items (example_world\<lparr>stdout := stdout example_world @ [LoadFailedRebuilding e]\<rparr>)
      = [(''warli'', [0]), (''madhubani'', [0])]"
    by (simp add: example_world_def)
  from ex_build [OF this, of stale] lb
  have built: "fst (load_or_build_index example_runtime example_world ec_initial 400) = None"
    "fst (snd (load_or_build_index example_runtime example_world ec_initial 400)) = ec_built"
    by auto
  have "index_file example_runtime W0 = Missing" by (simp add: W0_def index_file_def)
  then have "load_or_build_index example_runtime W0 ec_initial 400
      = build_index example_runtime W0 ec_initial 400"
    by (rule load_or_build_without_index)
  moreover have "dataset_items W0 = [(''warli'', [0]), (''madhubani'', [0])]"
    by (simp add: W0_def example_world_def)
  from ex_build [OF this, of ec_initial] obtain W' where
    "build_index example_runtime W0 ec_initial 400 = (None, ec_built, W')" by blast
  ultimately have "load_or_build_index example_runtime W0 ec_initial 400 = (None, ec_built, W')"
    by simp
  from ex_classify_after_build [OF this] cl
  have "fst (classify example_runtime example_world ec_initial [0]) =
     Inr [(''predicted_style'', PyStr ''madhubani''),
          (''confidence_score'', PyFloat (1 / 2)),
          (''all_predictions'', PyScores [(''madhubani'', 1 / 2), (''warli'', 1 / 2)]),
          (''method'', PyStr ''mobilenetv2-embeddings-knn'')]"
    by simp
  with idx meta act built show ?thesis by blast
qed


text \<open>
  The same disk with an empty dataset: the rebuild fails, \<^verbatim>\<open>__init__\<close> leaves the persisted
  vectors in the object, not loaded, and \<^verbatim>\<open>classify\<close> raises instead of scoring with them.
\<close>

lemma ex_failed_rebuild_raises:
  "fst (ec_init example_runtime (example_world\<lparr>dataset_items := []\<rparr>)) =
     ec_initial\<lparr>ec_embeddings := Some [[0, 1]], ec_labels := [''pithora'']\<rparr> \<and>
   fst (classify example_runtime (snd (ec_init example_runtime (example_world\<lparr>dataset_items := []\<rparr>)))
          (fst (ec_init example_runtime (example_world\<lparr>dataset_items := []\<rparr>))) [0])
     = Inl RuntimeError"
  by (simp add: ec_init_def load_or_build_index_def exists_def index_file_def try_load_index_def
      example_world_def example_runtime_def active_method_def build_index_def classify_def
      ec_initial_def Let_def)

end
